theory Spec2Isabelle
  imports Main
begin

section \<open>JavaScript strings\<close>

text \<open>
  A JavaScript string is a sequence of UTF-16 code units; \<open>length\<close>, \<open>substring\<close> and the
  regular expressions of \<open>bridge.js\<close> (all but one) work on code units. A code unit is a
  natural number here; \<open>js\<close> turns a literal into its code units.
\<close>

type_synonym jsstring = "nat list"

definition js :: "string \<Rightarrow> jsstring" where
  "js s = map of_char s"

definition ch :: "char \<Rightarrow> nat" where
  "ch c = of_char c"

definition nl :: nat where
  "nl = 10"

text \<open>White space as \<open>String.prototype.trim\<close> and the class \<open>\s\<close> read it.\<close>

definition is_space :: "nat \<Rightarrow> bool" where
  "is_space c = (c = 9 \<or> c = 10 \<or> c = 11 \<or> c = 12 \<or> c = 13 \<or> c = 32 \<or> c = 160
     \<or> c = 5760 \<or> (8192 \<le> c \<and> c \<le> 8202) \<or> c = 8232 \<or> c = 8233 \<or> c = 8239
     \<or> c = 8287 \<or> c = 12288 \<or> c = 65279)"

text \<open>Line terminators: where \<open>^\<close> and \<open>$\<close> match under the \<open>m\<close> flag, and what \<open>.\<close> skips.\<close>

definition is_lineterm :: "nat \<Rightarrow> bool" where
  "is_lineterm c = (c = 10 \<or> c = 13 \<or> c = 8232 \<or> c = 8233)"

definition is_digit :: "nat \<Rightarrow> bool" where
  "is_digit c = (48 \<le> c \<and> c \<le> 57)"

definition is_alpha :: "nat \<Rightarrow> bool" where
  "is_alpha c = ((65 \<le> c \<and> c \<le> 90) \<or> (97 \<le> c \<and> c \<le> 122))"

definition is_word :: "nat \<Rightarrow> bool" where
  "is_word c = (is_alpha c \<or> is_digit c \<or> c = 95)"

definition trim :: "jsstring \<Rightarrow> jsstring" where
  "trim s = rev (dropWhile is_space (rev (dropWhile is_space s)))"

definition startsWith :: "jsstring \<Rightarrow> jsstring \<Rightarrow> bool" where
  "startsWith s p = (take (length p) s = p)"

text \<open>\<open>s.substring(i)\<close> and \<open>s.substring(0, n)\<close> for indices that are natural numbers.\<close>

definition substring_from :: "jsstring \<Rightarrow> nat \<Rightarrow> jsstring" where
  "substring_from s i = drop i s"

definition substring_to :: "jsstring \<Rightarrow> nat \<Rightarrow> jsstring" where
  "substring_to s n = take n s"

text \<open>\<open>s.split(c)\<close> for a one-character separator: the empty string gives one empty piece.\<close>

fun split_on :: "nat \<Rightarrow> jsstring \<Rightarrow> jsstring list" where
  "split_on sep [] = [[]]"
| "split_on sep (c # cs) =
     (if c = sep then [] # split_on sep cs
      else (case split_on sep cs of
              [] \<Rightarrow> [[c]]
            | p # ps \<Rightarrow> (c # p) # ps))"

fun join_with :: "jsstring \<Rightarrow> jsstring list \<Rightarrow> jsstring" where
  "join_with sep [] = []"
| "join_with sep [p] = p"
| "join_with sep (p # q # ps) = p @ sep @ join_with sep (q # ps)"

text \<open>\<open>String(n)\<close> for an integer: decimal digits, with a minus sign when negative.\<close>

fun str_nat :: "nat \<Rightarrow> jsstring" where
  "str_nat n = (if n < 10 then [48 + n] else str_nat (n div 10) @ [48 + n mod 10])"

declare str_nat.simps [simp del]

definition str_int :: "int \<Rightarrow> jsstring" where
  "str_int i = (if i < 0 then 45 # str_nat (nat (- i)) else str_nat (nat i))"

text \<open>\<open>parseInt\<close> on a string of decimal digits (the only strings it is given here).\<close>

definition parseInt :: "jsstring \<Rightarrow> nat" where
  "parseInt ds = foldl (\<lambda>acc d. 10 * acc + (d - 48)) 0 ds"

section \<open>Regular expressions with backtracking\<close>

text \<open>
  The regular expressions of \<open>bridge.js\<close> use character classes, sequence, the greedy
  quantifiers \<open>*\<close>, \<open>+\<close>, \<open>?\<close>, \<open>{1,6}\<close>, \<open>{3,}\<close>, the lazy \<open>*?\<close>, two capture groups, the anchors
  \<open>^\<close> and \<open>$\<close> (with and without the \<open>m\<close> flag) and one-character negative look-behind
  and look-ahead. \<open>ms r st\<close> lists every way \<open>r\<close> matches at \<open>st\<close>, in the order in which a
  backtracking matcher tries them; the first is the match.
\<close>

datatype regex =
    Chr "nat \<Rightarrow> bool"
  | Seq regex regex
  | Star regex
  | Lazy regex
  | Opt regex
  | Grp1 regex
  | Grp2 regex
  | Bol
  | Eol
  | Bos
  | Eos
  | NotBehind "nat \<Rightarrow> bool"
  | NotAhead "nat \<Rightarrow> bool"

record mstate =
  prev :: "nat option"
  rest :: jsstring
  cap1 :: jsstring
  cap2 :: jsstring

text \<open>
  A quantified group is tried again only after an iteration that consumed input (an
  iteration that matched the empty string is refused, as in ECMAScript), so the length of
  the remaining input bounds the number of iterations.
\<close>

primrec iter :: "nat \<Rightarrow> (mstate \<Rightarrow> mstate list) \<Rightarrow> bool \<Rightarrow> mstate \<Rightarrow> mstate list" where
  "iter 0 f greedy st = [st]"
| "iter (Suc n) f greedy st =
     (let further = concat (map (\<lambda>st'. if length (rest st') < length (rest st)
                                       then iter n f greedy st' else []) (f st))
      in if greedy then further @ [st] else st # further)"

definition consumed :: "mstate \<Rightarrow> mstate \<Rightarrow> jsstring" where
  "consumed st st' = take (length (rest st) - length (rest st')) (rest st)"

primrec ms :: "regex \<Rightarrow> mstate \<Rightarrow> mstate list" where
  "ms (Chr p) st =
     (case rest st of
        [] \<Rightarrow> []
      | c # cs \<Rightarrow> if p c then [st\<lparr>prev := Some c, rest := cs\<rparr>] else [])"
| "ms (Seq a b) st = concat (map (ms b) (ms a st))"
| "ms (Star a) st = iter (length (rest st)) (ms a) True st"
| "ms (Lazy a) st = iter (length (rest st)) (ms a) False st"
| "ms (Opt a) st = ms a st @ [st]"
| "ms (Grp1 a) st = map (\<lambda>st'. st'\<lparr>cap1 := consumed st st'\<rparr>) (ms a st)"
| "ms (Grp2 a) st = map (\<lambda>st'. st'\<lparr>cap2 := consumed st st'\<rparr>) (ms a st)"
| "ms Bol st =
     (case prev st of
        None \<Rightarrow> [st]
      | Some c \<Rightarrow> if is_lineterm c then [st] else [])"
| "ms Eol st =
     (case rest st of
        [] \<Rightarrow> [st]
      | c # cs \<Rightarrow> if is_lineterm c then [st] else [])"
| "ms Bos st = (case prev st of None \<Rightarrow> [st] | Some c \<Rightarrow> [])"
| "ms Eos st = (case rest st of [] \<Rightarrow> [st] | c # cs \<Rightarrow> [])"
| "ms (NotBehind p) st =
     (case prev st of
        None \<Rightarrow> [st]
      | Some c \<Rightarrow> if p c then [] else [st])"
| "ms (NotAhead p) st =
     (case rest st of
        [] \<Rightarrow> [st]
      | c # cs \<Rightarrow> if p c then [] else [st])"

definition plus :: "regex \<Rightarrow> regex" where
  "plus r = Seq r (Star r)"

definition match_at :: "regex \<Rightarrow> nat option \<Rightarrow> jsstring \<Rightarrow> mstate option" where
  "match_at r p s =
     (case ms r \<lparr>prev = p, rest = s, cap1 = [], cap2 = []\<rparr> of
        [] \<Rightarrow> None
      | st # sts \<Rightarrow> Some st)"

text \<open>
  \<open>s.replace(r, f)\<close> for a regular expression with the \<open>g\<close> flag: the matches are found
  from left to right on the original string, each replaced by what \<open>f\<close> makes of the match
  and its two groups; after an empty match the search moves on by one code unit.
\<close>

fun replace_from ::
  "regex \<Rightarrow> (jsstring \<Rightarrow> jsstring \<Rightarrow> jsstring \<Rightarrow> jsstring) \<Rightarrow> nat option \<Rightarrow> jsstring \<Rightarrow> jsstring" where
  "replace_from r f p [] =
     (case match_at r p [] of
        None \<Rightarrow> []
      | Some st \<Rightarrow> f [] (cap1 st) (cap2 st))"
| "replace_from r f p (c # cs) =
     (case match_at r p (c # cs) of
        None \<Rightarrow> c # replace_from r f (Some c) cs
      | Some st \<Rightarrow>
          (let n = length (c # cs) - length (rest st); m = take n (c # cs)
           in if n = 0 then f [] (cap1 st) (cap2 st) @ c # replace_from r f (Some c) cs
              else f m (cap1 st) (cap2 st) @ replace_from r f (Some (last m)) (drop (n - 1) cs)))"

definition replace_all :: "regex \<Rightarrow> (jsstring \<Rightarrow> jsstring \<Rightarrow> jsstring \<Rightarrow> jsstring) \<Rightarrow> jsstring \<Rightarrow> jsstring" where
  "replace_all r f s = replace_from r f None s"


section \<open>The response formatter\<close>

definition is_char :: "nat \<Rightarrow> nat \<Rightarrow> bool" where
  "is_char c x = (x = c)"

definition not_char :: "nat \<Rightarrow> nat \<Rightarrow> bool" where
  "not_char c x = (x \<noteq> c)"

text \<open>Replacement by a fixed string, and by a template \<open>l$1r\<close>.\<close>

definition const_repl :: "jsstring \<Rightarrow> jsstring \<Rightarrow> jsstring \<Rightarrow> jsstring \<Rightarrow> jsstring" where
  "const_repl t m g1 g2 = t"

definition wrap1 :: "jsstring \<Rightarrow> jsstring \<Rightarrow> jsstring \<Rightarrow> jsstring \<Rightarrow> jsstring \<Rightarrow> jsstring" where
  "wrap1 l r m g1 g2 = l @ g1 @ r"

definition escapeHtml :: "jsstring \<Rightarrow> jsstring" where
  "escapeHtml text =
     replace_all (Chr (is_char 62)) (const_repl (js ''&gt;''))
       (replace_all (Chr (is_char 60)) (const_repl (js ''&lt;''))
         (replace_all (Chr (is_char 38)) (const_repl (js ''&amp;'')) text))"

text \<open>
  The first replacement has the \<open>u\<close> flag and the class U+1D400 to U+1D7FF. In UTF-16 these
  code points are exactly the pairs of the high surrogate D835 and a low surrogate DC00 to
  DFFF, and a match under the \<open>u\<close> flag covers both code units of a pair.
\<close>

definition math_re :: regex where
  "math_re = Seq (Chr (is_char 0xD835)) (Chr (\<lambda>c. 0xDC00 \<le> c \<and> c \<le> 0xDFFF))"

definition codePointAt0 :: "jsstring \<Rightarrow> nat" where
  "codePointAt0 m =
     (case m of
        hi # lo # others \<Rightarrow> (hi - 0xD800) * 0x400 + (lo - 0xDC00) + 0x10000
      | _ \<Rightarrow> 0)"

definition math_repl :: "jsstring \<Rightarrow> jsstring \<Rightarrow> jsstring \<Rightarrow> jsstring" where
  "math_repl m g1 g2 =
     (let code = codePointAt0 m
      in if code \<ge> 0x1D400 \<and> code \<le> 0x1D419 then [code - 0x1D400 + 65]
         else if code \<ge> 0x1D41A \<and> code \<le> 0x1D433 then [code - 0x1D41A + 97]
         else if code \<ge> 0x1D434 \<and> code \<le> 0x1D44D then [code - 0x1D434 + 65]
         else if code \<ge> 0x1D44E \<and> code \<le> 0x1D467 then [code - 0x1D44E + 97]
         else m)"

definition sep_class :: "nat \<Rightarrow> bool" where
  "sep_class c = (c = 45 \<or> c = 58 \<or> is_space c \<or> c = 124)"

definition table_re :: regex where
  "table_re =
     Seq (Chr (is_char 124)) (Seq (Grp1 (plus (Chr (not_char nl)))) (Seq (Chr (is_char 124)) (Seq (Chr (is_char nl))
     (Seq (Chr (is_char 124)) (Seq (plus (Chr sep_class)) (Seq (Chr (is_char 124)) (Seq (Chr (is_char nl))
     (Grp2 (Star (Seq (Chr (is_char 124)) (Seq (plus (Chr (not_char nl))) (Seq (Chr (is_char 124))
       (Opt (Chr (is_char nl)))))))))))))))"

definition cells :: "jsstring \<Rightarrow> jsstring list" where
  "cells row = filter (\<lambda>c. c \<noteq> []) (map trim (split_on 124 row))"

definition table_repl :: "jsstring \<Rightarrow> jsstring \<Rightarrow> jsstring \<Rightarrow> jsstring" where
  "table_repl m header rows =
     (let headerCells = cells header;
          rowLines = map cells (split_on nl (trim rows));
          result = join_with (js '' | '') headerCells @ [nl];
          result = result @ replicate 40 45 @ [nl]
      in foldl (\<lambda>result cs. result @ join_with (js '' | '') cs @ [nl]) result rowLines)"

definition sepline_re :: regex where
  "sepline_re = Seq Bol (Seq (Chr (is_char 124)) (Seq (plus (Chr sep_class)) (Seq (Chr (is_char 124)) Eol)))"

definition codeblock_re :: regex where
  "codeblock_re =
     Seq (Chr (is_char 96)) (Seq (Chr (is_char 96)) (Seq (Chr (is_char 96)) (Seq (Grp1 (Star (Chr is_word)))
     (Seq (Opt (Chr (is_char nl))) (Seq (Grp2 (Lazy (Chr (\<lambda>c. True))))
     (Seq (Chr (is_char 96)) (Seq (Chr (is_char 96)) (Chr (is_char 96)))))))))"

definition codeblock_repl :: "jsstring \<Rightarrow> jsstring \<Rightarrow> jsstring \<Rightarrow> jsstring" where
  "codeblock_repl m lang code = js ''<pre>'' @ trim code @ js ''</pre>''"

definition inlinecode_re :: regex where
  "inlinecode_re =
     Seq (Chr (is_char 96)) (Seq (Grp1 (plus (Chr (\<lambda>c. c \<noteq> 96 \<and> c \<noteq> nl)))) (Chr (is_char 96)))"

definition bold_star_re :: regex where
  "bold_star_re =
     Seq (Chr (is_char 42)) (Seq (Chr (is_char 42)) (Seq (Grp1 (plus (Chr (not_char 42))))
     (Seq (Chr (is_char 42)) (Chr (is_char 42)))))"

definition bold_under_re :: regex where
  "bold_under_re =
     Seq (Chr (is_char 95)) (Seq (Chr (is_char 95)) (Seq (Grp1 (plus (Chr (not_char 95))))
     (Seq (Chr (is_char 95)) (Chr (is_char 95)))))"

definition italic_star_re :: regex where
  "italic_star_re =
     Seq (NotBehind is_alpha) (Seq (Chr (is_char 42))
     (Seq (Grp1 (plus (Chr (\<lambda>c. c \<noteq> 42 \<and> c \<noteq> nl)))) (Seq (Chr (is_char 42)) (NotAhead is_alpha))))"

definition italic_under_re :: regex where
  "italic_under_re =
     Seq (NotBehind is_alpha) (Seq (Chr (is_char 95))
     (Seq (Grp1 (plus (Chr (\<lambda>c. c \<noteq> 95 \<and> c \<noteq> nl)))) (Seq (Chr (is_char 95)) (NotAhead is_alpha))))"

definition strike_re :: regex where
  "strike_re =
     Seq (Chr (is_char 126)) (Seq (Chr (is_char 126)) (Seq (Grp1 (plus (Chr (not_char 126))))
     (Seq (Chr (is_char 126)) (Chr (is_char 126)))))"

definition header_re :: regex where
  "header_re =
     Seq Bol (Seq (Chr (is_char 35))
       (Seq (Opt (Seq (Chr (is_char 35)) (Opt (Seq (Chr (is_char 35)) (Opt (Seq (Chr (is_char 35))
          (Opt (Seq (Chr (is_char 35)) (Opt (Chr (is_char 35)))))))))))
       (Seq (plus (Chr is_space)) (Seq (Grp1 (plus (Chr (\<lambda>c. \<not> is_lineterm c)))) Eol))))"

definition bullet_re :: regex where
  "bullet_re =
     Seq Bol (Seq (Star (Chr is_space)) (Seq (Chr (\<lambda>c. c = 45 \<or> c = 42)) (plus (Chr is_space))))"

definition numbered_re :: regex where
  "numbered_re =
     Seq Bol (Seq (Grp1 (plus (Chr is_digit))) (Seq (Chr (is_char 46)) (plus (Chr is_space))))"

definition newlines_re :: regex where
  "newlines_re = Seq (Chr (is_char nl)) (Seq (Chr (is_char nl)) (Seq (Chr (is_char nl)) (Star (Chr (is_char nl)))))"

definition formatForTelegram :: "jsstring \<Rightarrow> jsstring" where
  "formatForTelegram text0 =
     (if text0 = [] then js ''(Empty response)''
      else
        let text = replace_all math_re math_repl text0;
            text = replace_all table_re table_repl text;
            text = replace_all sepline_re (const_repl []) text;
            escaped = escapeHtml text;
            escaped = replace_all codeblock_re codeblock_repl escaped;
            escaped = replace_all inlinecode_re (wrap1 (js ''<code>'') (js ''</code>'')) escaped;
            escaped = replace_all bold_star_re (wrap1 (js ''<b>'') (js ''</b>'')) escaped;
            escaped = replace_all bold_under_re (wrap1 (js ''<b>'') (js ''</b>'')) escaped;
            escaped = replace_all italic_star_re (wrap1 (js ''<i>'') (js ''</i>'')) escaped;
            escaped = replace_all italic_under_re (wrap1 (js ''<i>'') (js ''</i>'')) escaped;
            escaped = replace_all strike_re (wrap1 (js ''<s>'') (js ''</s>'')) escaped;
            escaped = replace_all header_re (wrap1 (js ''<b>'') (js ''</b>'')) escaped;
            escaped = replace_all bullet_re (const_repl [8226, 32]) escaped;
            escaped = replace_all numbered_re (wrap1 [] (js ''. '')) escaped;
            escaped = replace_all newlines_re (const_repl [nl, nl]) escaped
        in trim escaped)"


section \<open>Configuration and authorization\<close>

text \<open>
  \<open>ALLOWED_CHAT_IDS\<close> is \<open>(process.env.TELEGRAM_ALLOWED_CHAT_IDS || '').split(',').filter(Boolean)\<close>:
  an unset variable reads as the empty string, and empty pieces are dropped.
\<close>

definition parse_allowed :: "jsstring option \<Rightarrow> jsstring list" where
  "parse_allowed v =
     filter (\<lambda>piece. piece \<noteq> []) (split_on 44 (case v of None \<Rightarrow> [] | Some s \<Rightarrow> s))"

definition isAuthorized :: "jsstring list \<Rightarrow> int \<Rightarrow> bool" where
  "isAuthorized allowed chatId =
     (if length allowed = 0 then False else str_int chatId \<in> set allowed)"

section \<open>Outbound messages: \<open>sendMessage\<close>\<close>

text \<open>The \<open>while\<close> loop that cuts the text into pieces of 4000 code units.\<close>

function chunk_loop :: "jsstring \<Rightarrow> jsstring list \<Rightarrow> jsstring list" where
  "chunk_loop remaining chunks =
     (if length remaining > 0
      then chunk_loop (substring_from remaining 4000) (chunks @ [substring_to remaining 4000])
      else chunks)"
  by pat_completeness auto
termination
  by (relation "measure (\<lambda>(remaining, chunks). length remaining)")
     (auto simp: substring_from_def)

declare chunk_loop.simps [simp del]

text \<open>The part marker of chunk \<open>i\<close> (counted from 0) of \<open>n\<close>: \<open>[i+1/n]\<close> and a newline.\<close>

definition part_marker :: "nat \<Rightarrow> nat \<Rightarrow> jsstring" where
  "part_marker i n = js ''['' @ str_nat (i + 1) @ js ''/'' @ str_nat n @ js '']'' @ [nl]"

definition tag_re :: regex where
  "tag_re = Seq (Chr (is_char 60)) (Seq (plus (Chr (not_char 62))) (Chr (is_char 62)))"

definition stripTags :: "jsstring \<Rightarrow> jsstring" where
  "stripTags s = replace_all tag_re (const_repl []) s"

text \<open>
  What is posted to the transport: the chat, the text and the parse mode (absent in the
  plain-text retry). The transport is a predicate: does it accept this post.
\<close>

record post =
  post_chat :: int
  post_text :: jsstring
  post_parse_mode :: "jsstring option"

text \<open>
  The \<open>for\<close> loop over the chunks. It returns every post attempted, in order, and whether
  the loop was left by an exception (the plain-text retry failed too): the remaining
  chunks are then not sent.
\<close>

fun send_chunks ::
  "(post \<Rightarrow> bool) \<Rightarrow> int \<Rightarrow> jsstring \<Rightarrow> nat \<Rightarrow> nat \<Rightarrow> jsstring list \<Rightarrow> post list \<times> bool" where
  "send_chunks accepts chatId mode n i [] = ([], False)"
| "send_chunks accepts chatId mode n i (c # cs) =
     (let chunk = (if n > 1 then part_marker i n @ c else c);
          first = \<lparr>post_chat = chatId, post_text = chunk, post_parse_mode = Some mode\<rparr>
      in if accepts first
         then (case send_chunks accepts chatId mode n (i + 1) cs of
                 (posts, failed) \<Rightarrow> (first # posts, failed))
         else (let second = \<lparr>post_chat = chatId, post_text = stripTags chunk,
                               post_parse_mode = None\<rparr>
               in if accepts second
                  then (case send_chunks accepts chatId mode n (i + 1) cs of
                          (posts, failed) \<Rightarrow> (first # second # posts, failed))
                  else ([first, second], True)))"

definition outbound_text :: "jsstring \<Rightarrow> jsstring" where
  "outbound_text text = (if text = [] \<or> trim text = [] then js ''(Empty response)'' else text)"

definition sendMessage ::
  "(post \<Rightarrow> bool) \<Rightarrow> int \<Rightarrow> jsstring \<Rightarrow> jsstring option \<Rightarrow> post list \<times> bool" where
  "sendMessage accepts chatId text parse_mode =
     (let text = outbound_text text;
          chunks = chunk_loop text [];
          mode = (case parse_mode of None \<Rightarrow> js ''HTML''
                  | Some m \<Rightarrow> if m = [] then js ''HTML'' else m)
      in send_chunks accepts chatId mode (length chunks) 0 chunks)"

section \<open>The dispatcher: \<open>runClaude\<close>, \<open>runParallelAgents\<close>, \<open>processMessage\<close>\<close>

datatype mode = Finance | Dev | Legal | Health | Judge | Default

text \<open>
  What one call of the executor (\<open>query\<close> of the agent SDK) comes to: the \<open>result\<close> of the
  last message that has one (the empty string when none has), or a thrown \<open>Error\<close> with its
  message.
\<close>

datatype outcome = Result jsstring | Throws jsstring

record message =
  chat_id :: int
  msg_text :: "jsstring option"
  from_username :: "jsstring option"
  from_first_name :: "jsstring option"

record pending =
  p_chatId :: int
  p_text :: jsstring
  p_username :: jsstring
  p_mode :: mode

text \<open>
  The module's variables that the dispatcher reads and writes. \<open>stats.totalCost\<close> (a
  floating-point sum), the error counter, the timestamps and the log file are left out.
\<close>

record bridge =
  isProcessing :: bool
  activeAgents :: nat
  messageQueue :: "pending list"
  WORKING_DIR :: jsstring
  messagesProcessed :: nat
  totalInputTokens :: nat
  totalOutputTokens :: nat

text \<open>
  The configuration and the outside world: the allow list, the table of system prompts
  (long literals in the source, a parameter here), the executor, the directories that
  exist, and the content of the log file (\<open>None\<close> when reading it throws).
\<close>

record env =
  ALLOWED_CHAT_IDS :: "jsstring list"
  SYSTEM_PROMPTS :: "mode \<Rightarrow> jsstring"
  query :: "jsstring \<Rightarrow> outcome"
  existsSync :: "jsstring \<Rightarrow> bool"
  log_file :: "jsstring option"

text \<open>
  The text handed to \<open>sendMessage\<close>. Three replies hold a clock reading or a formatted
  float; they are kept as constructors with the values they are built from.
\<close>

datatype reply =
    Text jsstring
  | StatusReport bool nat jsstring nat nat
  | CostReport nat nat
  | Completed

text \<open>The effects of the bridge, in the order in which the code performs them.\<close>

datatype event =
    Send int reply
  | ExecStart jsstring
  | ExecEnd
  | SaveMessage jsstring int jsstring jsstring
  | SetImmediate message
  | SaveState int
  | GetUpdates int
  | FetchError jsstring
  | PollError jsstring
  | Backoff

definition estimateTokens :: "jsstring \<Rightarrow> nat" where
  "estimateTokens text = (length text + 3) div 4"

definition system_prompt :: "env \<Rightarrow> mode \<Rightarrow> jsstring" where
  "system_prompt e m = (if SYSTEM_PROMPTS e m = [] then SYSTEM_PROMPTS e Default else SYSTEM_PROMPTS e m)"

text \<open>
  \<open>runClaude\<close> sets the flag, awaits the executor and clears the flag in its \<open>finally\<close>
  block: the caller gets the state back only when the task is over.
\<close>

definition runClaude :: "env \<Rightarrow> bridge \<Rightarrow> jsstring \<Rightarrow> mode \<Rightarrow> bridge \<times> event list \<times> jsstring" where
  "runClaude e s prompt m =
     (let s1 = s\<lparr>isProcessing := True, activeAgents := 1\<rparr>;
          fullPrompt = system_prompt e m @ [nl, nl] @ js ''---'' @ [nl, nl] @ js ''User request: '' @ prompt
      in case query e fullPrompt of
           Result result \<Rightarrow>
             (let inputTokens = estimateTokens fullPrompt;
                  outputTokens = estimateTokens result;
                  s2 = s1\<lparr>totalInputTokens := totalInputTokens s1 + inputTokens,
                          totalOutputTokens := totalOutputTokens s1 + outputTokens\<rparr>
              in (s2\<lparr>isProcessing := False, activeAgents := 0\<rparr>,
                  [ExecStart fullPrompt, ExecEnd],
                  formatForTelegram (if result = [] then js ''(No output)'' else result)))
         | Throws msg \<Rightarrow>
             (s1\<lparr>isProcessing := False, activeAgents := 0\<rparr>,
              [ExecStart fullPrompt, ExecEnd],
              js ''Error: '' @ msg))"

text \<open>
  One agent of the fan-out: the \<open>async\<close> function mapped over the prompts. It catches the
  executor's error itself, so its promise is always fulfilled.
\<close>

datatype agent_result = Success nat jsstring | Failure nat jsstring

datatype settled = Fulfilled agent_result | Rejected jsstring

definition agent_prompt :: "env \<Rightarrow> mode \<Rightarrow> nat \<Rightarrow> jsstring \<Rightarrow> jsstring" where
  "agent_prompt e m index prompt =
     system_prompt e m @ [nl, nl] @ js ''Agent '' @ str_nat (index + 1) @ js '' task: '' @ prompt"

definition run_agent :: "env \<Rightarrow> mode \<Rightarrow> nat \<Rightarrow> jsstring \<Rightarrow> settled" where
  "run_agent e m index prompt =
     (case query e (agent_prompt e m index prompt) of
        Result result \<Rightarrow> Fulfilled (Success (index + 1) result)
      | Throws msg \<Rightarrow> Fulfilled (Failure (index + 1) msg))"

text \<open>The body of the loop over the settled results: what one result adds to the output.\<close>

definition agent_entry :: "settled \<Rightarrow> jsstring" where
  "agent_entry r =
     (case r of
        Fulfilled (Success index result) \<Rightarrow>
          js ''<b>Agent '' @ str_nat index @ js '':</b>'' @ [nl] @ formatForTelegram result @ [nl, nl]
      | Fulfilled (Failure index err) \<Rightarrow>
          js ''<b>Agent '' @ str_nat index @ js '':</b> Error - '' @ err @ [nl, nl]
      | Rejected reason \<Rightarrow>
          js ''<b>Agent:</b> Failed - '' @ reason @ [nl, nl])"

definition agents_header :: "nat \<Rightarrow> jsstring" where
  "agents_header numAgents =
     js ''<b>Parallel Agents Results ('' @ str_nat numAgents @ js '' agents)</b>'' @ [nl, nl]"

definition runParallelAgents ::
  "env \<Rightarrow> bridge \<Rightarrow> jsstring list \<Rightarrow> mode \<Rightarrow> bridge \<times> event list \<times> jsstring" where
  "runParallelAgents e s prompts m =
     (let numAgents = length prompts;
          s1 = s\<lparr>isProcessing := True, activeAgents := numAgents\<rparr>;
          results = map (\<lambda>(index, prompt). run_agent e m index prompt) (enumerate 0 prompts);
          output = foldl (\<lambda>output r. output @ agent_entry r) (agents_header numAgents) results
      in (s1\<lparr>isProcessing := False, activeAgents := 0\<rparr>,
          map (\<lambda>(index, prompt). ExecStart (agent_prompt e m index prompt)) (enumerate 0 prompts)
            @ replicate numAgents ExecEnd,
          output))"

text \<open>\<open>text.match(r)\<close> without the \<open>g\<close> flag: the first position at which \<open>r\<close> matches.\<close>

fun search :: "regex \<Rightarrow> nat option \<Rightarrow> jsstring \<Rightarrow> mstate option" where
  "search r p [] = match_at r p []"
| "search r p (c # cs) =
     (case match_at r p (c # cs) of
        Some st \<Rightarrow> Some st
      | None \<Rightarrow> search r (Some c) cs)"

primrec lit :: "jsstring \<Rightarrow> regex \<Rightarrow> regex" where
  "lit [] r = r"
| "lit (c # cs) r = Seq (Chr (is_char c)) (lit cs r)"

text \<open>The pattern of the fan-out command, with the \<open>s\<close> flag: the dot matches every code unit.\<close>

definition agents_re :: regex where
  "agents_re =
     Seq Bos (lit (js ''/agents'') (Seq (plus (Chr is_space)) (Seq (Grp1 (plus (Chr is_digit)))
       (Seq (plus (Chr is_space)) (Seq (Grp2 (plus (Chr (\<lambda>c. True)))) Eos)))))"

definition MAX_PARALLEL_AGENTS :: nat where
  "MAX_PARALLEL_AGENTS = 10"

definition bullet :: jsstring where
  "bullet = [8226, 32]"

definition start_text :: jsstring where
  "start_text =
     js ''<b>Claude Code Bridge v6</b>\<newline>\<newline>''
     @ js ''Send any message to Claude. Using Opus 4.5.\<newline>\<newline>''
     @ js ''<b>Domain Modes:</b>\<newline>''
     @ bullet @ js ''/finance [q] - Quant/market analysis\<newline>''
     @ bullet @ js ''/dev [q] - Full-stack development\<newline>''
     @ bullet @ js ''/legal [q] - Legal tech (JudgeFinder)\<newline>''
     @ bullet @ js ''/health [q] - EMS/healthcare (Protocol Guide)\<newline>''
     @ bullet @ js ''/judge [q] - Judicial analytics\<newline>\<newline>''
     @ js ''<b>Power Features:</b>\<newline>''
     @ bullet @ js ''/agents [N] [q] - Run N parallel agents\<newline>''
     @ bullet @ js ''/cost - View token usage & costs\<newline>\<newline>''
     @ js ''<b>System:</b>\<newline>''
     @ bullet @ js ''/status - Bridge status\<newline>''
     @ bullet @ js ''/cd [path] - Change directory\<newline>''
     @ bullet @ js ''/logs - View logs''"

definition agents_usage :: jsstring where
  "agents_usage =
     js ''Usage: /agents [N] [query]\<newline>\<newline>''
     @ js ''Examples:\<newline>''
     @ bullet @ js ''/agents 3 Research the top 3 JS frameworks\<newline>''
     @ bullet @ js ''/agents 5 Analyze 5 different stocks''"

definition queued_text :: "nat \<Rightarrow> jsstring" where
  "queued_text n = js ''Queued (#'' @ str_nat n @ js '')''"

definition sender_name :: "message \<Rightarrow> jsstring" where
  "sender_name msg =
     (case from_username msg of
        Some u \<Rightarrow> if u \<noteq> [] then u
                  else (case from_first_name msg of
                          Some f \<Rightarrow> if f \<noteq> [] then f else js ''Unknown''
                        | None \<Rightarrow> js ''Unknown'')
      | None \<Rightarrow> (case from_first_name msg of
                   Some f \<Rightarrow> if f \<noteq> [] then f else js ''Unknown''
                 | None \<Rightarrow> js ''Unknown''))"

text \<open>
  The five domain-mode branches of \<open>processMessage\<close> are the same code with other
  constants: the length of the prefix, the mode tag, the usage text and the banner.
  None of them looks at the queue after its task.
\<close>

definition mode_command ::
  "env \<Rightarrow> bridge \<Rightarrow> int \<Rightarrow> jsstring \<Rightarrow> jsstring \<Rightarrow> nat \<Rightarrow> mode \<Rightarrow> jsstring \<Rightarrow> jsstring
     \<Rightarrow> bridge \<times> event list" where
  "mode_command e s chatId text username plen m usage banner =
     (let prompt = trim (substring_from text plen)
      in if prompt = [] then (s, [Send chatId (Text usage)])
         else if isProcessing s then
           (let s' = s\<lparr>messageQueue := messageQueue s @
                        [\<lparr>p_chatId = chatId, p_text = text, p_username = username, p_mode = m\<rparr>]\<rparr>
            in (s', [Send chatId (Text (queued_text (length (messageQueue s'))))]))
         else
           (case runClaude e s prompt m of
              (s1, evs, response) \<Rightarrow>
                (s1\<lparr>messagesProcessed := messagesProcessed s1 + 1\<rparr>,
                 [Send chatId (Text (banner @ substring_to prompt 50 @ js ''...''))]
                   @ evs @ [Send chatId (Text response)])))"

definition agents_command :: "env \<Rightarrow> bridge \<Rightarrow> int \<Rightarrow> jsstring \<Rightarrow> bridge \<times> event list" where
  "agents_command e s chatId text =
     (case search agents_re None text of
        None \<Rightarrow> (s, [Send chatId (Text agents_usage)])
      | Some mt \<Rightarrow>
          (let numAgents = min (parseInt (cap1 mt)) MAX_PARALLEL_AGENTS;
               basePrompt = trim (cap2 mt)
           in if numAgents < 1 then (s, [Send chatId (Text (js ''Need at least 1 agent''))])
              else if isProcessing s then
                (s, [Send chatId (Text (js ''Already processing. Please wait.''))])
              else
                (let prompts = map (\<lambda>i. basePrompt @ js '' (Focus area '' @ str_nat (i + 1)
                                          @ js '' of '' @ str_nat numAgents @ js '')'') [0..<numAgents]
                 in case runParallelAgents e s prompts Default of
                      (s1, evs, response) \<Rightarrow>
                        (s1\<lparr>messagesProcessed := messagesProcessed s1 + numAgents\<rparr>,
                         [Send chatId (Text (js ''<b>Launching '' @ str_nat numAgents
                              @ js '' parallel agents...</b>'' @ [nl] @ substring_to basePrompt 100))]
                           @ evs @ [Send chatId (Text response)]))))"

definition default_command :: "env \<Rightarrow> bridge \<Rightarrow> int \<Rightarrow> jsstring \<Rightarrow> jsstring \<Rightarrow> bridge \<times> event list" where
  "default_command e s chatId text username =
     (if isProcessing s then
        (let s' = s\<lparr>messageQueue := messageQueue s @
                     [\<lparr>p_chatId = chatId, p_text = text, p_username = username, p_mode = Default\<rparr>]\<rparr>
         in (s', [Send chatId (Text (queued_text (length (messageQueue s'))))]))
      else
        (case runClaude e s text Default of
           (s1, evs, response) \<Rightarrow>
             (let s2 = s1\<lparr>messagesProcessed := messagesProcessed s1 + 1\<rparr>;
                  done = [Send chatId (Text (js ''Processing: '' @ substring_to text 40
                              @ (if length text > 40 then js ''...'' else [])))]
                         @ evs
                         @ [SaveMessage username chatId text (substring_to response 5000),
                            Send chatId (Text response), Send chatId Completed]
              in case messageQueue s2 of
                   [] \<Rightarrow> (s2, done)
                 | next # waiting \<Rightarrow>
                     (s2\<lparr>messageQueue := waiting\<rparr>,
                      done @ [SetImmediate \<lparr>chat_id = p_chatId next, msg_text = Some (p_text next),
                                from_username = Some (p_username next), from_first_name = None\<rparr>]))))"

definition take_last :: "nat \<Rightarrow> 'a list \<Rightarrow> 'a list" where
  "take_last n xs = drop (length xs - n) xs"

definition processMessage :: "env \<Rightarrow> bridge \<Rightarrow> message \<Rightarrow> bridge \<times> event list" where
  "processMessage e s msg =
     (let chatId = chat_id msg;
          text = (case msg_text msg of None \<Rightarrow> [] | Some t \<Rightarrow> trim t);
          username = sender_name msg
      in if text = [] then (s, [])
         else if \<not> isAuthorized (ALLOWED_CHAT_IDS e) chatId then
           (s, [Send chatId (Text (js ''Unauthorized. Your chat ID: '' @ str_int chatId))])
         else if text = js ''/start'' then (s, [Send chatId (Text start_text)])
         else if text = js ''/status'' then
           (s, [Send chatId (StatusReport (isProcessing s) (activeAgents s) (WORKING_DIR s)
                               (length (messageQueue s)) (messagesProcessed s))])
         else if text = js ''/cost'' then
           (s, [Send chatId (CostReport (totalInputTokens s) (totalOutputTokens s))])
         else if text = js ''/stop'' then
           (s, [Send chatId (Text (if isProcessing s
                  then js ''Processing cannot be interrupted mid-stream. Wait for completion.''
                  else js ''Nothing running.''))])
         else if text = js ''/logs'' then
           (case log_file e of
              Some logs \<Rightarrow>
                (s, [Send chatId (Text (js ''<pre>''
                       @ escapeHtml (join_with [nl] (take_last 20 (split_on nl logs)))
                       @ js ''</pre>''))])
            | None \<Rightarrow> (s, [Send chatId (Text (js ''No logs available.''))]))
         else if startsWith text (js ''/cd '') then
           (let newDir = trim (substring_from text 4)
            in if existsSync e newDir
               then (s\<lparr>WORKING_DIR := newDir\<rparr>,
                     [Send chatId (Text (js ''Changed to: <code>'' @ newDir @ js ''</code>''))])
               else (s, [Send chatId (Text (js ''Not found: '' @ newDir))]))
         else if startsWith text (js ''/finance '') then
           mode_command e s chatId text username 9 Finance
             (js ''Usage: /finance [query]'') (js ''<b>Financial Analysis:</b> '')
         else if startsWith text (js ''/dev '') then
           mode_command e s chatId text username 5 Dev
             (js ''Usage: /dev [query]'') (js ''<b>Dev Mode:</b> '')
         else if startsWith text (js ''/legal '') then
           mode_command e s chatId text username 7 Legal
             (js ''Usage: /legal [query]\<newline>Expert in legal tech, JudgeFinder, SEC compliance.'')
             (js ''<b>Legal Tech:</b> '')
         else if startsWith text (js ''/health '') then
           mode_command e s chatId text username 8 Health
             (js ''Usage: /health [query]\<newline>EMS protocols, Protocol Guide, paramedic support.'')
             (js ''<b>Healthcare/EMS:</b> '')
         else if startsWith text (js ''/judge '') then
           mode_command e s chatId text username 7 Judge
             (js ''Usage: /judge [query]\<newline>Judicial analytics, search judges, court data.'')
             (js ''<b>Judicial Analytics:</b> '')
         else if startsWith text (js ''/agents '') then agents_command e s chatId text
         else default_command e s chatId text username)"

section \<open>The cursor, the poll loop and startup\<close>

text \<open>
  The state file: absent, unreadable as JSON of an object, or an object whose
  \<open>lastUpdateId\<close> is a number or is absent.
\<close>

datatype state_file = Missing | Corrupt | Saved "int option"

definition loadState :: "state_file \<Rightarrow> int" where
  "loadState f =
     (case f of
        Missing \<Rightarrow> 0
      | Corrupt \<Rightarrow> 0
      | Saved None \<Rightarrow> 0
      | Saved (Some n) \<Rightarrow> if n = 0 then 0 else n)"

text \<open>
  An update identifier is a JavaScript number, a double with an integral value. The sum
  \<open>lastUpdateId + 1\<close> is the double nearest to the exact sum, the one with the even
  significand when two are equally near: \<open>to_double\<close> rounds an integer to 53 significant
  bits. (Doubles have no integral value above \<open>2 ^ 1024\<close>; the model does not stop there.)
\<close>

fun bitlen :: "nat \<Rightarrow> nat" where
  "bitlen n = (if n = 0 then 0 else Suc (bitlen (n div 2)))"

declare bitlen.simps [simp del]

definition to_double :: "int \<Rightarrow> int" where
  "to_double n =
     (let a = nat (abs n);
          q = 2 ^ (bitlen a - 53);
          lo = (a div q) * q;
          r = a mod q;
          m = (if 2 * r < q \<or> (2 * r = q \<and> even (a div q)) then lo else lo + q)
      in if n < 0 then - int m else int m)"

record update =
  update_id :: int
  upd_message :: "message option"

text \<open>
  What a \<open>getUpdates\<close> request comes to: the updates of the answer (none when the answer
  has no \<open>result\<close>), a request aborted by its timeout (\<open>ECONNABORTED\<close>), or any other
  error, with its message.
\<close>

datatype fetched = Updates "update list" | Aborted | Failed jsstring

text \<open>
  The places outside the handling of a message where \<open>log\<close> is called: the eight lines
  written before the loop, the \<open>catch\<close> of \<open>getUpdates\<close> and the \<open>catch\<close> of the loop.
\<close>

datatype log_site = Startup nat | FetchCatch | LoopCatch

text \<open>
  The transport and the disk: what the \<open>k\<close>-th \<open>getUpdates\<close> request with a given offset
  comes to, whether writing an identifier to the state file succeeds, and the error that
  \<open>fs.appendFileSync\<close> throws when \<open>log\<close> is called at a place in turn \<open>k\<close> of the loop
  (\<open>None\<close> when the line is appended). \<open>log\<close> does not catch that error.
\<close>

record world =
  fetch :: "nat \<Rightarrow> int \<Rightarrow> fetched"
  write_ok :: "int \<Rightarrow> bool"
  append :: "nat \<Rightarrow> log_site \<Rightarrow> jsstring option"

record poller =
  lastUpdateId :: int
  stateFile :: state_file
  polls :: nat
  dispatcher :: bridge

definition saveState :: "world \<Rightarrow> poller \<Rightarrow> int \<Rightarrow> poller" where
  "saveState w p updateId =
     (if write_ok w updateId then p\<lparr>stateFile := Saved (Some updateId)\<rparr> else p)"

definition getUpdates_offset :: "poller \<Rightarrow> int" where
  "getUpdates_offset p = to_double (lastUpdateId p + 1)"

text \<open>
  \<open>getUpdates\<close>: the updates, the line it logged, and the error it threw, if \<open>log\<close> threw
  in its \<open>catch\<close>.
\<close>

definition getUpdates :: "world \<Rightarrow> poller \<Rightarrow> update list \<times> event list \<times> jsstring option" where
  "getUpdates w p =
     (case fetch w (polls p) (getUpdates_offset p) of
        Updates updates \<Rightarrow> (updates, [], None)
      | Aborted \<Rightarrow> ([], [], None)
      | Failed msg \<Rightarrow>
          (case append w (polls p) FetchCatch of
             None \<Rightarrow> ([], [FetchError msg], None)
           | Some err \<Rightarrow> ([], [], Some err)))"

text \<open>
  The handler of one message, as the loop sees it: the new dispatcher state, the effects,
  and the message of the error it threw, if it threw. The loop awaits the handler.
  \<open>dispatch\<close> is \<open>processMessage\<close> with a log file that can be appended to;
  \<open>dispatch_unlogged\<close> is \<open>processMessage\<close> with a log file that cannot: a message with
  text reaches a call of \<open>log\<close> (line 536 or 541) before any other effect, and that call
  throws.
\<close>

type_synonym handler = "bridge \<Rightarrow> message \<Rightarrow> bridge \<times> event list \<times> jsstring option"

definition dispatch :: "env \<Rightarrow> handler" where
  "dispatch e s msg = (case processMessage e s msg of (s', evs) \<Rightarrow> (s', evs, None))"

definition dispatch_unlogged :: "jsstring \<Rightarrow> handler" where
  "dispatch_unlogged err s msg =
     (case msg_text msg of
        None \<Rightarrow> (s, [], None)
      | Some t \<Rightarrow> if trim t = [] then (s, [], None) else (s, [], Some err))"

text \<open>The \<open>for\<close> loop over one batch; an error thrown by the handler leaves the loop.\<close>

fun forward :: "handler \<Rightarrow> world \<Rightarrow> poller \<Rightarrow> update list \<Rightarrow> poller \<times> event list \<times> jsstring option" where
  "forward h w p [] = (p, [], None)"
| "forward h w p (u # us) =
     (let p1 = saveState w (p\<lparr>lastUpdateId := update_id u\<rparr>) (update_id u)
      in case upd_message u of
           None \<Rightarrow>
             (case forward h w p1 us of
                (p2, evs, thrown) \<Rightarrow> (p2, SaveState (update_id u) # evs, thrown))
         | Some msg \<Rightarrow>
             (case h (dispatcher p1) msg of
                (d, evs, Some err) \<Rightarrow>
                  (p1\<lparr>dispatcher := d\<rparr>, SaveState (update_id u) # evs, Some err)
              | (d, evs, None) \<Rightarrow>
                  (case forward h w (p1\<lparr>dispatcher := d\<rparr>) us of
                     (p2, evs2, thrown) \<Rightarrow> (p2, SaveState (update_id u) # evs @ evs2, thrown))))"

text \<open>
  The \<open>catch\<close> of the loop in turn \<open>k\<close>: it logs the error and backs off, unless \<open>log\<close>
  throws, which leaves the loop with the error of \<open>log\<close>.
\<close>

definition poll_catch ::
  "world \<Rightarrow> nat \<Rightarrow> poller \<Rightarrow> event list \<Rightarrow> jsstring \<Rightarrow> poller \<times> event list \<times> jsstring option" where
  "poll_catch w k p evs err =
     (case append w k LoopCatch of
        None \<Rightarrow> (p, evs @ [PollError err, Backoff], None)
      | Some err' \<Rightarrow> (p, evs, Some err'))"

text \<open>
  One turn of the \<open>while (true)\<close> loop, with its \<open>try\<close> and \<open>catch\<close>: the state, the effects,
  and the error with which the loop was left, if it was.
\<close>

definition pollIteration :: "handler \<Rightarrow> world \<Rightarrow> poller \<Rightarrow> poller \<times> event list \<times> jsstring option" where
  "pollIteration h w p =
     (let p0 = p\<lparr>polls := polls p + 1\<rparr>;
          request = GetUpdates (getUpdates_offset p)
      in case getUpdates w p of
           (updates, gevs, Some err) \<Rightarrow> poll_catch w (polls p) p0 (request # gevs) err
         | (updates, gevs, None) \<Rightarrow>
             (case forward h w p0 updates of
                (p1, evs, None) \<Rightarrow> (p1, request # gevs @ evs, None)
              | (p1, evs, Some err) \<Rightarrow> poll_catch w (polls p) p1 (request # gevs @ evs) err))"

text \<open>
  The loop has no exit of its own: \<open>pollLoop n\<close> is its first \<open>n\<close> turns, fewer when an
  error leaves it.
\<close>

primrec pollLoop ::
  "nat \<Rightarrow> handler \<Rightarrow> world \<Rightarrow> poller \<Rightarrow> poller \<times> event list \<times> jsstring option" where
  "pollLoop 0 h w p = (p, [], None)"
| "pollLoop (Suc n) h w p =
     (case pollIteration h w p of
        (p1, evs, Some err) \<Rightarrow> (p1, evs, Some err)
      | (p1, evs, None) \<Rightarrow>
          (case pollLoop n h w p1 of (p2, evs2, thrown) \<Rightarrow> (p2, evs @ evs2, thrown)))"

definition initial_bridge :: "jsstring \<Rightarrow> bridge" where
  "initial_bridge dir =
     \<lparr>isProcessing = False, activeAgents = 0, messageQueue = [], WORKING_DIR = dir,
      messagesProcessed = 0, totalInputTokens = 0, totalOutputTokens = 0\<rparr>"

definition initial_poller :: "state_file \<Rightarrow> jsstring \<Rightarrow> poller" where
  "initial_poller f dir =
     \<lparr>lastUpdateId = loadState f, stateFile = f, polls = 0, dispatcher = initial_bridge dir\<rparr>"

text \<open>
  The eight calls of \<open>log\<close> with which \<open>pollLoop\<close> begins: the error of the first that
  throws.
\<close>

definition startup_log :: "world \<Rightarrow> jsstring option" where
  "startup_log w =
     (case List.map_filter (\<lambda>i. append w 0 (Startup i)) [0..<8] of
        [] \<Rightarrow> None
      | err # errs \<Rightarrow> Some err)"

text \<open>
  The process: it has exited with a code, it is in the poll loop (shown after \<open>n\<close>
  turns), or \<open>pollLoop\<close> was left with an error, which \<open>console.error\<close> prints: then the
  process stays (the health timer keeps it) and polls no more. The module reads the state
  file when it is loaded, then checks the token.
\<close>

datatype process =
    Exited nat
  | Polling poller "event list"
  | Ended poller "event list" jsstring

definition bridge_main ::
  "handler \<Rightarrow> world \<Rightarrow> jsstring option \<Rightarrow> state_file \<Rightarrow> jsstring \<Rightarrow> nat \<Rightarrow> process" where
  "bridge_main h w BOT_TOKEN f dir n =
     (if BOT_TOKEN = None \<or> BOT_TOKEN = Some [] then Exited 1
      else case startup_log w of
             Some err \<Rightarrow> Ended (initial_poller f dir) [] err
           | None \<Rightarrow>
               (case pollLoop n h w (initial_poller f dir) of
                  (p, evs, None) \<Rightarrow> Polling p evs
                | (p, evs, Some err) \<Rightarrow> Ended p evs err))"


section \<open>The watchdog\<close>



definition RESTART_DELAY_MS :: int where
  "RESTART_DELAY_MS = 5000"

datatype wstatus = Starting | Running | Restarting | Stopping | Stopped | Failed

record health =
  h_status :: wstatus
  h_reason :: "jsstring option"











text \<open>
  For the statements about \<open>sendMessage\<close>: a chunk body of 1 to 4000 code units, the text
  posted for chunk \<open>i\<close> of \<open>n\<close> (the body, after its part marker when \<open>n > 1\<close>), and
  the room a part marker of \<open>n\<close> chunks can take.
\<close>

definition chunk_ok :: "jsstring \<Rightarrow> bool" where
  "chunk_ok c = (0 < length c \<and> length c \<le> 4000)"

definition marked :: "nat \<Rightarrow> nat \<Rightarrow> jsstring \<Rightarrow> jsstring" where
  "marked n i c = (if n > 1 then part_marker i n @ c else c)"

definition marker_room :: "nat \<Rightarrow> nat" where
  "marker_room n = 4 + 2 * length (str_nat n)"

text \<open>
  For the statement about the fan-out: the entry of the combined reply that agent number
  \<open>index\<close> gets for the outcome of its own executor call.
\<close>

fun outcome_entry :: "nat \<Rightarrow> outcome \<Rightarrow> jsstring" where
  "outcome_entry index (Result result) =
     js ''<b>Agent '' @ str_nat index @ js '':</b>'' @ [nl] @ formatForTelegram result @ [nl, nl]"
| "outcome_entry index (Throws msg) =
     js ''<b>Agent '' @ str_nat index @ js '':</b> Error - '' @ msg @ [nl, nl]"

text \<open>
  For the statements about the poll loop: the events that only the loop itself produces,
  the identifiers on which \<open>+ 1\<close> is exact, a transport that honours the offset (it
  answers with identifiers in ascending order, none below the offset asked for and none
  from \<open>2 ^ 53\<close> on), and what a run keeps true of the cursor.
\<close>

fun is_poll_event :: "event \<Rightarrow> bool" where
  "is_poll_event (SaveState i) = True"
| "is_poll_event (GetUpdates off) = True"
| "is_poll_event (FetchError err) = True"
| "is_poll_event (PollError err) = True"
| "is_poll_event Backoff = True"
| "is_poll_event ev = False"

fun is_fetch_error :: "event \<Rightarrow> bool" where
  "is_fetch_error (FetchError err) = True"
| "is_fetch_error ev = False"

definition quiet :: "event list \<Rightarrow> bool" where
  "quiet evs = list_all (\<lambda>ev. \<not> is_poll_event ev) evs"

fun ascending_from :: "int \<Rightarrow> int list \<Rightarrow> bool" where
  "ascending_from off [] = True"
| "ascending_from off (i # ids) = (off \<le> i \<and> ascending_from i ids)"

definition safe_id :: "int \<Rightarrow> bool" where
  "safe_id i = (- (2 ^ 53) < i \<and> i < 2 ^ 53)"

definition honours :: "world \<Rightarrow> bool" where
  "honours w =
     (\<forall>k off us. fetch w k off = Updates us \<longrightarrow>
        ascending_from off (map update_id us) \<and> list_all (\<lambda>u. update_id u < 2 ^ 53) us)"

definition quiet_handler :: "handler \<Rightarrow> bool" where
  "quiet_handler h = (\<forall>s msg. quiet (fst (snd (h s msg))))"

fun saved_below :: "world \<Rightarrow> int \<Rightarrow> event \<Rightarrow> bool" where
  "saved_below w b (SaveState i) = (\<not> write_ok w i \<or> i \<le> b)"
| "saved_below w b ev = True"

fun fetch_above :: "int \<Rightarrow> event \<Rightarrow> bool" where
  "fetch_above b (GetUpdates off) = (b < off)"
| "fetch_above b ev = True"

definition run_ok :: "world \<Rightarrow> poller \<Rightarrow> poller \<Rightarrow> event list \<Rightarrow> bool" where
  "run_ok w p p' evs =
     (lastUpdateId p \<le> lastUpdateId p' \<and> safe_id (lastUpdateId p')
      \<and> loadState (stateFile p) \<le> loadState (stateFile p')
      \<and> loadState (stateFile p') \<le> lastUpdateId p'
      \<and> list_all (saved_below w (loadState (stateFile p'))) evs
      \<and> list_all (fetch_above (lastUpdateId p)) evs)"

text \<open>
  Concrete environments on which the statements are tried: a transport that holds the
  updates 5, 6 and 7, an executor that fails for agent 3, a handler that always throws,
  a transport that delivers one message, a transport that answers with the identifiers 9
  and 3 in this order, a disk on which the log file cannot be appended to, and one on
  which it cannot once the loop has begun.
\<close>

definition sample_world :: world where
  "sample_world =
     \<lparr>fetch = (\<lambda>k off. if k = 0
         then Updates (filter (\<lambda>u. off \<le> update_id u)
                [\<lparr>update_id = 5, upd_message = None\<rparr>, \<lparr>update_id = 6, upd_message = None\<rparr>,
                 \<lparr>update_id = 7, upd_message = None\<rparr>])
         else Updates []),
      write_ok = (\<lambda>i. True), append = (\<lambda>k site. None)\<rparr>"

definition sample_env :: env where
  "sample_env =
     \<lparr>ALLOWED_CHAT_IDS = [js ''42''], SYSTEM_PROMPTS = (\<lambda>m. js ''S''),
      query = (\<lambda>p. if take 1 (drop 9 p) = [51] then Throws (js ''boom'') else Result (js ''ok'')),
      existsSync = (\<lambda>d. False), log_file = None\<rparr>"

definition failing_handler :: handler where
  "failing_handler s msg = (s, [], Some (js ''boom''))"

definition message_world :: world where
  "message_world =
     \<lparr>fetch = (\<lambda>k off. if k = 0
         then Updates [\<lparr>update_id = 1, upd_message = Some \<lparr>chat_id = 42, msg_text = Some (js ''hi''),
                       from_username = None, from_first_name = None\<rparr>\<rparr>]
         else Updates []),
      write_ok = (\<lambda>i. True), append = (\<lambda>k site. None)\<rparr>"


definition unordered_world :: world where
  "unordered_world =
     \<lparr>fetch = (\<lambda>k off. if k = 0
         then Updates [\<lparr>update_id = 9, upd_message = None\<rparr>, \<lparr>update_id = 3, upd_message = None\<rparr>]
         else Updates []),
      write_ok = (\<lambda>i. True), append = (\<lambda>k site. None)\<rparr>"

definition closed_log_world :: world where
  "closed_log_world = message_world\<lparr>append := (\<lambda>k site. Some (js ''EACCES''))\<rparr>"

fun full_disk :: "nat \<Rightarrow> log_site \<Rightarrow> jsstring option" where
  "full_disk k (Startup i) = None"
| "full_disk k site = Some (js ''ENOSPC'')"

definition full_disk_world :: world where
  "full_disk_world = message_world\<lparr>append := full_disk\<rparr>"
text \<open>
  For the statements about the dispatcher: the mode tag a request text gets, the commands
  that are answered at once, the replies with which a fan-out request is turned down
  while the slot is busy, the state after a request was put in the queue, and a busy
  state and a message to try the statements on.
\<close>

definition request_mode :: "jsstring \<Rightarrow> mode" where
  "request_mode text =
     (if startsWith text (js ''/finance '') then Finance
      else if startsWith text (js ''/dev '') then Dev
      else if startsWith text (js ''/legal '') then Legal
      else if startsWith text (js ''/health '') then Health
      else if startsWith text (js ''/judge '') then Judge
      else Default)"

definition is_utility :: "jsstring \<Rightarrow> bool" where
  "is_utility text =
     (text = js ''/start'' \<or> text = js ''/status'' \<or> text = js ''/cost'' \<or> text = js ''/stop''
      \<or> text = js ''/logs'' \<or> startsWith text (js ''/cd ''))"

definition busy_rejections :: "jsstring list" where
  "busy_rejections =
     [agents_usage, js ''Need at least 1 agent'', js ''Already processing. Please wait.'']"

definition enqueue :: "bridge \<Rightarrow> message \<Rightarrow> jsstring \<Rightarrow> bridge" where
  "enqueue s msg text =
     s\<lparr>messageQueue := messageQueue s @
          [\<lparr>p_chatId = chat_id msg, p_text = text, p_username = sender_name msg,
            p_mode = request_mode text\<rparr>]\<rparr>"

definition busy_bridge :: bridge where
  "busy_bridge = (initial_bridge [])\<lparr>isProcessing := True, activeAgents := 1\<rparr>"

definition sample_message :: "string \<Rightarrow> message" where
  "sample_message t =
     \<lparr>chat_id = 42, msg_text = Some (js t), from_username = Some (js ''bob''),
      from_first_name = None\<rparr>"

text \<open>
  For the statements about the queue: a state with one task waiting, the event that
  starts a waiting task, a poller whose slot is idle and whose queue is empty, a
  transport that answers the first request with a prompt and a status command, and one
  that answers it with a prompt and a domain-mode command.
\<close>

definition waiting_bridge :: bridge where
  "waiting_bridge =
     (initial_bridge [])\<lparr>messageQueue :=
        [\<lparr>p_chatId = 42, p_text = js ''later'', p_username = js ''bob'', p_mode = Default\<rparr>]\<rparr>"

fun is_drain :: "event \<Rightarrow> bool" where
  "is_drain (SetImmediate msg) = True"
| "is_drain ev = False"

definition idle :: "poller \<Rightarrow> bool" where
  "idle p = (\<not> isProcessing (dispatcher p) \<and> messageQueue (dispatcher p) = [])"

definition batch_world :: world where
  "batch_world =
     \<lparr>fetch = (\<lambda>k off. if k = 0
         then Updates [\<lparr>update_id = 1, upd_message = Some (sample_message ''hello'')\<rparr>,
                    \<lparr>update_id = 2, upd_message = Some (sample_message ''/status'')\<rparr>]
         else Updates []),
      write_ok = (\<lambda>i. True), append = (\<lambda>k site. None)\<rparr>"







section \<open>The busy branches of the dispatcher\<close>

lemma trim_eq_Nil: "trim x = [] \<longleftrightarrow> list_all is_space x"
proof -
  have "trim x = [] \<longleftrightarrow> (\<forall>c \<in> set (dropWhile is_space x). is_space c)"
    by (simp add: trim_def dropWhile_eq_Nil_conv)
  also have "\<dots> \<longleftrightarrow> dropWhile is_space x = []"
  proof
    assume a: "\<forall>c \<in> set (dropWhile is_space x). is_space c"
    show "dropWhile is_space x = []"
    proof (rule ccontr)
      assume n: "dropWhile is_space x \<noteq> []"
      then have "\<not> is_space (hd (dropWhile is_space x))" by (rule hd_dropWhile)
      moreover have "hd (dropWhile is_space x) \<in> set (dropWhile is_space x)" using n by simp
      ultimately show False using a by blast
    qed
  next
    assume e: "dropWhile is_space x = []"
    show "\<forall>c \<in> set (dropWhile is_space x). is_space c" unfolding e by simp
  qed
  also have "\<dots> \<longleftrightarrow> list_all is_space x"
    by (simp add: dropWhile_eq_Nil_conv list_all_iff)
  finally show ?thesis .
qed

lemma trim_last: "trim t \<noteq> [] \<Longrightarrow> \<not> is_space (last (trim t))"
proof -
  assume a: "trim t \<noteq> []"
  let ?ys = "dropWhile is_space (rev (dropWhile is_space t))"
  have ne: "?ys \<noteq> []" using a by (simp add: trim_def)
  have "last (trim t) = hd ?ys" using ne by (simp add: trim_def last_rev)
  then show ?thesis using hd_dropWhile[OF ne] by simp
qed

lemma prompt_nonempty:
  assumes "startsWith (trim t) pre" "pre \<noteq> []" "is_space (last pre)"
  shows "trim (substring_from (trim t) (length pre)) \<noteq> []"
proof -
  let ?text = "trim t"
  let ?r = "drop (length pre) ?text"
  have split: "?text = pre @ ?r"
    using assms(1) append_take_drop_id[of "length pre" ?text] by (simp add: startsWith_def)
  then have ne: "?text \<noteq> []" using assms(2) by auto
  have r: "?r \<noteq> []"
  proof
    assume "?r = []"
    with split have "?text = pre" by simp
    with trim_last[OF ne] assms(3) show False by simp
  qed
  have "last ?r = last ?text" using split r by (metis last_appendR)
  then have "\<not> is_space (last ?r)" using trim_last[OF ne] by simp
  moreover have "last ?r \<in> set ?r" by (rule last_in_set[OF r])
  ultimately have "\<not> list_all is_space ?r" by (auto simp: list_all_iff)
  then show ?thesis by (simp add: trim_eq_Nil substring_from_def)
qed

lemma mode_command_busy:
  assumes "isProcessing s" "startsWith (trim t) pre" "pre \<noteq> []" "is_space (last pre)"
    "n = length pre"
  shows "mode_command e s c (trim t) u n m usage banner =
     (s\<lparr>messageQueue := messageQueue s @
           [\<lparr>p_chatId = c, p_text = trim t, p_username = u, p_mode = m\<rparr>]\<rparr>,
      [Send c (Text (queued_text (length (messageQueue s) + 1)))])"
  using prompt_nonempty[OF assms(2-4)] assms(1,5)
  by (simp add: mode_command_def Let_def)

lemma agents_command_busy:
  assumes "isProcessing s"
  shows "fst (agents_command e s c text) = s
     \<and> (\<exists>r. snd (agents_command e s c text) = [Send c (Text r)] \<and> r \<in> set busy_rejections)"
  using assms
  by (auto simp: agents_command_def busy_rejections_def Let_def split: option.splits)

lemma startsWith_nth: "startsWith str p \<Longrightarrow> i < length p \<Longrightarrow> str ! i = p ! i"
  by (metis nth_take startsWith_def)

lemma agents_prefix_exclusive:
  assumes "startsWith str (js ''/agents '')"
  shows "\<not> startsWith str (js ''/finance '')" "\<not> startsWith str (js ''/dev '')"
    "\<not> startsWith str (js ''/legal '')" "\<not> startsWith str (js ''/health '')"
    "\<not> startsWith str (js ''/judge '')"
  using startsWith_nth[OF assms, of 1] startsWith_nth[of str "js ''/finance ''" 1]
    startsWith_nth[of str "js ''/dev ''" 1] startsWith_nth[of str "js ''/legal ''" 1]
    startsWith_nth[of str "js ''/health ''" 1] startsWith_nth[of str "js ''/judge ''" 1]
  by (auto simp: js_def)

text \<open>
  What \<open>processMessage\<close> does when it is entered with the flag set. A request of an
  authorized requester that is a free-form prompt or one of the five domain-mode commands
  is appended to the queue with its mode tag and answered with the new queue length, and
  nothing else happens. A \<open>/agents\<close> request is not put in the queue: the state stays as
  it is and the requester is told to wait (or, for a malformed request, how to use the
  command).
\<close>

lemma busy_branch:
  assumes "isProcessing s" and "isAuthorized (ALLOWED_CHAT_IDS e) (chat_id msg)"
    and "msg_text msg = Some t" and "trim t \<noteq> []" and "\<not> is_utility (trim t)"
  shows "(\<not> startsWith (trim t) (js ''/agents '') \<longrightarrow>
            processMessage e s msg =
              (enqueue s msg (trim t),
               [Send (chat_id msg) (Text (queued_text (length (messageQueue s) + 1)))]))
       \<and> (startsWith (trim t) (js ''/agents '') \<longrightarrow>
            fst (processMessage e s msg) = s
            \<and> (\<exists>r. snd (processMessage e s msg) = [Send (chat_id msg) (Text r)]
                    \<and> r \<in> set busy_rejections))"
proof -
  let ?text = "trim t"
  have u: "?text \<noteq> js ''/start''" "?text \<noteq> js ''/status''" "?text \<noteq> js ''/cost''"
    "?text \<noteq> js ''/stop''" "?text \<noteq> js ''/logs''" "\<not> startsWith ?text (js ''/cd '')"
    using assms(5) by (auto simp: is_utility_def)
  have sp: "is_space (last (js ''/finance ''))" "is_space (last (js ''/dev ''))"
    "is_space (last (js ''/legal ''))" "is_space (last (js ''/health ''))"
    "is_space (last (js ''/judge ''))"
    by (simp_all add: js_def is_space_def)
  have ne: "js ''/finance '' \<noteq> []" "js ''/dev '' \<noteq> []" "js ''/legal '' \<noteq> []"
    "js ''/health '' \<noteq> []" "js ''/judge '' \<noteq> []"
    by (simp_all add: js_def)
  have ln: "9 = length (js ''/finance '')" "5 = length (js ''/dev '')" "7 = length (js ''/legal '')"
    "8 = length (js ''/health '')" "7 = length (js ''/judge '')"
    by (simp_all add: js_def)
  note mb = mode_command_busy[OF assms(1) _ ne(1) sp(1) ln(1)]
    mode_command_busy[OF assms(1) _ ne(2) sp(2) ln(2)]
    mode_command_busy[OF assms(1) _ ne(3) sp(3) ln(3)]
    mode_command_busy[OF assms(1) _ ne(4) sp(4) ln(4)]
    mode_command_busy[OF assms(1) _ ne(5) sp(5) ln(5)]
  have a: "processMessage e s msg =
              (enqueue s msg ?text,
               [Send (chat_id msg) (Text (queued_text (length (messageQueue s) + 1)))])"
    if na: "\<not> startsWith ?text (js ''/agents '')"
    using assms(1-4) u na mb
    by (simp add: processMessage_def Let_def enqueue_def request_mode_def default_command_def)
  have b: "fst (processMessage e s msg) = s
            \<and> (\<exists>r. snd (processMessage e s msg) = [Send (chat_id msg) (Text r)]
                    \<and> r \<in> set busy_rejections)"
    if ag: "startsWith ?text (js ''/agents '')"
  proof -
    have "processMessage e s msg = agents_command e s (chat_id msg) ?text"
      using assms(2-4) u ag agents_prefix_exclusive[OF ag]
      by (simp add: processMessage_def Let_def)
    then show ?thesis using agents_command_busy[OF assms(1), of e "chat_id msg" ?text] by simp
  qed
  show ?thesis using a b by blast
qed

lemmas eval_defs = trim_def is_space_def js_def startsWith_def str_int_def str_nat.simps
  substring_from_def substring_to_def

lemma busy_branch_sample:
  "processMessage sample_env busy_bridge (sample_message ''/finance gold'') =
     (busy_bridge\<lparr>messageQueue :=
        [\<lparr>p_chatId = 42, p_text = js ''/finance gold'', p_username = js ''bob'',
          p_mode = Finance\<rparr>]\<rparr>,
      [Send 42 (Text (js ''Queued (#1)''))])"
proof -
  have t: "trim (js ''/finance gold'') = js ''/finance gold''" by (simp add: eval_defs)
  have h: "isProcessing busy_bridge"
    "isAuthorized (ALLOWED_CHAT_IDS sample_env) (chat_id (sample_message ''/finance gold''))"
    "msg_text (sample_message ''/finance gold'') = Some (js ''/finance gold'')"
    "trim (js ''/finance gold'') \<noteq> []"
    "\<not> is_utility (trim (js ''/finance gold''))"
    "\<not> startsWith (trim (js ''/finance gold'')) (js ''/agents '')"
    by (simp_all add: busy_bridge_def isAuthorized_def sample_env_def sample_message_def
        is_utility_def eval_defs)
  have v: "enqueue busy_bridge (sample_message ''/finance gold'') (js ''/finance gold'') =
      busy_bridge\<lparr>messageQueue :=
        [\<lparr>p_chatId = 42, p_text = js ''/finance gold'', p_username = js ''bob'',
          p_mode = Finance\<rparr>]\<rparr>"
    "queued_text (Suc (length (messageQueue busy_bridge))) = js ''Queued (#1)''"
    "chat_id (sample_message ''/finance gold'') = 42"
    by (simp_all add: enqueue_def request_mode_def sender_name_def queued_text_def
        busy_bridge_def initial_bridge_def sample_message_def eval_defs)
  from busy_branch [OF h(1-5)] h(6) show ?thesis by (simp add: t v)
qed

lemma agents_search_sample:
  "search agents_re None (js ''/agents 3 compare clouds'') =
     Some \<lparr>prev = Some (ch CHR ''s''), rest = [], cap1 = js ''3'', cap2 = js ''compare clouds''\<rparr>"
  by (simp add: agents_re_def match_at_def plus_def is_char_def is_digit_def consumed_def
      ch_def eval_defs)

lemma agents_busy_guard:
  "processMessage sample_env busy_bridge (sample_message ''/agents 3 compare clouds'') =
     (busy_bridge, [Send 42 (Text (js ''Already processing. Please wait.''))])"
proof -
  have a: "agents_command sample_env busy_bridge 42 (js ''/agents 3 compare clouds'') =
     (busy_bridge, [Send 42 (Text (js ''Already processing. Please wait.''))])"
    unfolding agents_command_def agents_search_sample
    by (simp add: parseInt_def MAX_PARALLEL_AGENTS_def busy_bridge_def initial_bridge_def
        Let_def js_def)
  have "processMessage sample_env busy_bridge (sample_message ''/agents 3 compare clouds'') =
     agents_command sample_env busy_bridge 42 (js ''/agents 3 compare clouds'')"
    unfolding processMessage_def Let_def sample_message_def
    by (simp add: isAuthorized_def sample_env_def eval_defs)
  with a show ?thesis by simp
qed

section \<open>The queue after a task\<close>

lemma runClaude_sample:
  "runClaude sample_env s (js ''gold'') m =
     (s\<lparr>isProcessing := False, activeAgents := 0,
        totalInputTokens := totalInputTokens s + 7, totalOutputTokens := totalOutputTokens s + 1\<rparr>,
      [ExecStart (js ''S'' @ [nl, nl] @ js ''---'' @ [nl, nl] @ js ''User request: gold''), ExecEnd],
      formatForTelegram (js ''ok''))"
  by (simp add: runClaude_def system_prompt_def sample_env_def estimateTokens_def Let_def js_def nl_def)

text \<open>
  What \<open>processMessage\<close> does when it is entered with a task waiting in the queue. After
  the task of a domain-mode command the waiting task stays in the queue and no event
  starts it; after the task of a free-form prompt the oldest waiting task is taken from
  the queue and scheduled.
\<close>

lemma domain_task_leaves_queue:
  "processMessage sample_env waiting_bridge (sample_message ''/finance gold'') =
     (waiting_bridge\<lparr>totalInputTokens := 7, totalOutputTokens := 1, messagesProcessed := 1\<rparr>,
      [Send 42 (Text (js ''<b>Financial Analysis:</b> gold...'')),
       ExecStart (js ''S'' @ [nl, nl] @ js ''---'' @ [nl, nl] @ js ''User request: gold''),
       ExecEnd,
       Send 42 (Text (formatForTelegram (js ''ok'')))])
   \<and> messageQueue (fst (processMessage sample_env waiting_bridge (sample_message ''/finance gold'')))
       = messageQueue waiting_bridge
   \<and> list_all (\<lambda>ev. \<not> is_drain ev)
        (snd (processMessage sample_env waiting_bridge (sample_message ''/finance gold'')))"
proof -
  have m: "mode_command sample_env waiting_bridge 42 (js ''/finance gold'') (js ''bob'') 9 Finance
      (js ''Usage: /finance [query]'') (js ''<b>Financial Analysis:</b> '') =
     (waiting_bridge\<lparr>totalInputTokens := 7, totalOutputTokens := 1, messagesProcessed := 1\<rparr>,
      [Send 42 (Text (js ''<b>Financial Analysis:</b> gold...'')),
       ExecStart (js ''S'' @ [nl, nl] @ js ''---'' @ [nl, nl] @ js ''User request: gold''),
       ExecEnd,
       Send 42 (Text (formatForTelegram (js ''ok'')))])"
  proof -
    have p: "trim (substring_from (js ''/finance gold'') 9) = js ''gold''"
      by (simp add: eval_defs)
    show ?thesis unfolding mode_command_def p Let_def runClaude_sample
      by (simp add: waiting_bridge_def initial_bridge_def eval_defs)
  qed
  have "processMessage sample_env waiting_bridge (sample_message ''/finance gold'') =
     mode_command sample_env waiting_bridge 42 (js ''/finance gold'') (js ''bob'') 9 Finance
      (js ''Usage: /finance [query]'') (js ''<b>Financial Analysis:</b> '')"
    unfolding processMessage_def Let_def sample_message_def
    by (simp add: isAuthorized_def sample_env_def sender_name_def eval_defs)
  with m show ?thesis by (simp add: waiting_bridge_def initial_bridge_def)
qed


lemma runClaude_hello:
  "runClaude sample_env s (js ''hello'') m =
     (s\<lparr>isProcessing := False, activeAgents := 0,
        totalInputTokens := totalInputTokens s + 7, totalOutputTokens := totalOutputTokens s + 1\<rparr>,
      [ExecStart (js ''S'' @ [nl, nl] @ js ''---'' @ [nl, nl] @ js ''User request: hello''), ExecEnd],
      formatForTelegram (js ''ok''))"
  by (simp add: runClaude_def system_prompt_def sample_env_def estimateTokens_def Let_def js_def nl_def)

lemma default_task_drains_queue:
  "processMessage sample_env waiting_bridge (sample_message ''hello'') =
     ((initial_bridge [])\<lparr>totalInputTokens := 7, totalOutputTokens := 1, messagesProcessed := 1\<rparr>,
      [Send 42 (Text (js ''Processing: hello'')),
       ExecStart (js ''S'' @ [nl, nl] @ js ''---'' @ [nl, nl] @ js ''User request: hello''),
       ExecEnd,
       SaveMessage (js ''bob'') 42 (js ''hello'') (substring_to (formatForTelegram (js ''ok'')) 5000),
       Send 42 (Text (formatForTelegram (js ''ok''))),
       Send 42 Completed,
       SetImmediate \<lparr>chat_id = 42, msg_text = Some (js ''later''), from_username = Some (js ''bob''),
                      from_first_name = None\<rparr>])"
proof -
  have d: "default_command sample_env waiting_bridge 42 (js ''hello'') (js ''bob'') =
     ((initial_bridge [])\<lparr>totalInputTokens := 7, totalOutputTokens := 1, messagesProcessed := 1\<rparr>,
      [Send 42 (Text (js ''Processing: hello'')),
       ExecStart (js ''S'' @ [nl, nl] @ js ''---'' @ [nl, nl] @ js ''User request: hello''),
       ExecEnd,
       SaveMessage (js ''bob'') 42 (js ''hello'') (substring_to (formatForTelegram (js ''ok'')) 5000),
       Send 42 (Text (formatForTelegram (js ''ok''))),
       Send 42 Completed,
       SetImmediate \<lparr>chat_id = 42, msg_text = Some (js ''later''), from_username = Some (js ''bob''),
                      from_first_name = None\<rparr>])"
    unfolding default_command_def Let_def runClaude_hello
    by (simp add: waiting_bridge_def initial_bridge_def js_def substring_to_def)
  have "processMessage sample_env waiting_bridge (sample_message ''hello'') =
     default_command sample_env waiting_bridge 42 (js ''hello'') (js ''bob'')"
    unfolding processMessage_def Let_def sample_message_def
    by (simp add: isAuthorized_def sample_env_def sender_name_def eval_defs)
  with d show ?thesis by simp
qed


section \<open>Chunking of outbound messages\<close>

lemma chunk_loop_concat: "concat (chunk_loop r acc) = concat acc @ r"
proof (induction r acc rule: chunk_loop.induct)
  case (1 remaining chunks)
  then show ?case
    by (subst chunk_loop.simps) (auto simp: substring_from_def substring_to_def)
qed

lemma chunk_loop_length: "length (chunk_loop r acc) = length acc + (length r + 3999) div 4000"
proof (induction r acc rule: chunk_loop.induct)
  case (1 remaining chunks)
  show ?case
  proof (cases "length remaining > 0")
    case True
    have "(length remaining + 3999) div 4000 = Suc ((length remaining + 3999 - 4000) div 4000)"
      using True by (intro le_div_geq) (simp_all add: Suc_le_eq)
    moreover have "(length remaining - 4000 + 3999) div 4000 = (length remaining + 3999 - 4000) div 4000"
      by (cases "length remaining \<ge> 4000") simp_all
    ultimately have "(length remaining - 4000 + 3999) div 4000 + 1 = (length remaining + 3999) div 4000"
      by simp
    then show ?thesis using 1 True
      by (subst chunk_loop.simps) (simp add: substring_from_def substring_to_def)
  next
    case False
    then show ?thesis by (subst chunk_loop.simps) simp
  qed
qed

lemma chunk_loop_all: "list_all chunk_ok acc \<Longrightarrow> list_all chunk_ok (chunk_loop r acc)"
proof (induction r acc rule: chunk_loop.induct)
  case (1 remaining chunks)
  show ?case
  proof (cases "length remaining > 0")
    case True
    then have "chunk_ok (substring_to remaining 4000)"
      by (simp add: chunk_ok_def substring_to_def)
    with 1 True show ?thesis
      by (subst chunk_loop.simps) simp
  next
    case False
    with 1 show ?thesis by (subst chunk_loop.simps) simp
  qed
qed

lemma length_str_nat_pos: "0 < length (str_nat n)"
  by (subst str_nat.simps) simp

lemma length_str_nat_mono: "a \<le> b \<Longrightarrow> length (str_nat a) \<le> length (str_nat b)"
proof (induction b arbitrary: a rule: str_nat.induct)
  case (1 n)
  show ?case
  proof (cases "n < 10")
    case True
    with 1 show ?thesis by (simp add: str_nat.simps[of n] str_nat.simps[of a])
  next
    case False
    show ?thesis
    proof (cases "a < 10")
      case True
      then show ?thesis using False length_str_nat_pos[of "n div 10"]
        by (simp add: str_nat.simps[of n] str_nat.simps[of a])
    next
      case F: False
      have "a div 10 \<le> n div 10" using 1(2) by (simp add: div_le_mono)
      from 1(1)[OF False this] show ?thesis using False F
        by (simp add: str_nat.simps[of n] str_nat.simps[of a])
    qed
  qed
qed

lemma send_chunks_accepting:
  "send_chunks (\<lambda>p. True) chatId pm n i cs =
     (map (\<lambda>(j, c). \<lparr>post_chat = chatId, post_text = marked n j c, post_parse_mode = Some pm\<rparr>)
        (enumerate i cs), False)"
  by (induction cs arbitrary: i) (simp_all add: marked_def Let_def)

lemma replace_from_const_length:
  "length (replace_from r (const_repl []) p s) \<le> length s"
proof (induction r "const_repl [] :: jsstring \<Rightarrow> jsstring \<Rightarrow> jsstring \<Rightarrow> jsstring" p s rule: replace_from.induct)
  case (1 r p)
  then show ?case by (simp add: const_repl_def split: option.splits)
next
  case (2 r p c cs)
  show ?case
  proof (cases "match_at r p (c # cs)")
    case None
    with 2 show ?thesis by simp
  next
    case (Some st)
    show ?thesis
    proof (cases "length (c # cs) - length (rest st) = 0")
      case True
      with 2 Some show ?thesis by (simp add: const_repl_def Let_def)
    next
      case False
      with 2(3)[OF Some refl refl False] Some show ?thesis
        by (simp add: const_repl_def Let_def)
    qed
  qed
qed

lemma stripTags_length: "length (stripTags s) \<le> length s"
  by (simp add: stripTags_def replace_all_def replace_from_const_length)



lemma part_marker_length: "i < n \<Longrightarrow> length (part_marker i n) \<le> marker_room n"
  using length_str_nat_mono[of "i + 1" n]
  by (simp add: part_marker_def marker_room_def js_def nl_def)

lemma marked_length: "i < n \<Longrightarrow> chunk_ok c \<Longrightarrow> length (marked n i c) \<le> 4000 + marker_room n"
  using part_marker_length[of i n] by (auto simp: marked_def chunk_ok_def)

lemma send_chunks_bound:
  "list_all chunk_ok cs \<Longrightarrow> i + length cs \<le> n \<Longrightarrow>
   list_all (\<lambda>p. length (post_text p) \<le> 4000 + marker_room n)
     (fst (send_chunks accepts chatId pm n i cs))"
proof (induction cs arbitrary: i)
  case Nil
  then show ?case by simp
next
  case (Cons c cs)
  have m: "length (marked n i c) \<le> 4000 + marker_room n"
    using Cons.prems by (intro marked_length) auto
  have s: "length (stripTags (marked n i c)) \<le> 4000 + marker_room n"
    using m stripTags_length[of "marked n i c"] by linarith
  have ih: "list_all (\<lambda>p. length (post_text p) \<le> 4000 + marker_room n)
     (fst (send_chunks accepts chatId pm n (i + 1) cs))"
    using Cons.prems by (intro Cons.IH) auto
  show ?case using m s ih
    by (auto simp: Let_def marked_def split: prod.splits)
qed

text \<open>
  C3 (amended). For every text that is not blank, the loop cuts it into
  \<open>ceil(length / 4000)\<close> chunk bodies of 1 to 4000 code units whose concatenation is the
  text. To a transport that accepts every post, \<open>sendMessage\<close> sends one message for each
  chunk, in order: the body itself when there is one chunk, the part marker \<open>[i/n]\<close> and a
  newline followed by the body otherwise. So a message is at most 4000 code units plus the
  marker, on every transport (the plain-text retry is never longer than the first try).
\<close>

theorem sendMessage_chunks:
  assumes "trim text \<noteq> []"
  shows "length (chunk_loop text []) = (length text + 3999) div 4000
    \<and> concat (chunk_loop text []) = text
    \<and> list_all chunk_ok (chunk_loop text [])
    \<and> sendMessage (\<lambda>p. True) chatId text None =
        (map (\<lambda>(i, c). \<lparr>post_chat = chatId,
                          post_text = marked (length (chunk_loop text [])) i c,
                          post_parse_mode = Some (js ''HTML'')\<rparr>)
           (enumerate 0 (chunk_loop text [])), False)
    \<and> list_all (\<lambda>p. length (post_text p) \<le> 4000 + marker_room (length (chunk_loop text [])))
        (fst (sendMessage accepts chatId text parse_mode))"
proof -
  have out: "outbound_text text = text" using assms by (auto simp: outbound_text_def trim_def)
  have a: "list_all chunk_ok (chunk_loop text [])" by (rule chunk_loop_all) simp
  have b: "list_all (\<lambda>p. length (post_text p) \<le> 4000 + marker_room (length (chunk_loop text [])))
        (fst (sendMessage accepts chatId text parse_mode))"
    unfolding sendMessage_def out Let_def by (rule send_chunks_bound[OF a]) simp
  show ?thesis using a b
    by (simp add: chunk_loop_length chunk_loop_concat sendMessage_def out send_chunks_accepting)
qed

lemma chunk_loop_9001:
  "chunk_loop (replicate 9001 c) [] = [replicate 4000 c, replicate 4000 c, replicate 1001 c]"
  by (simp add: chunk_loop.simps substring_from_def substring_to_def)

theorem sendMessage_chunks_witness:
  "length (chunk_loop (replicate 9001 97) []) = 3
   \<and> concat (chunk_loop (replicate 9001 97) []) = replicate 9001 97
   \<and> map post_text (fst (sendMessage (\<lambda>p. True) 7 (replicate 9001 97) None)) =
       [js ''[1/3]'' @ [nl] @ replicate 4000 97, js ''[2/3]'' @ [nl] @ replicate 4000 97,
        js ''[3/3]'' @ [nl] @ replicate 1001 97]"
  using sendMessage_chunks [of "replicate 9001 97" 7 "\<lambda>p. True" None]
  by (simp add: trim_def is_space_def chunk_loop_9001 marked_def part_marker_def js_def
      str_nat.simps)

text \<open>
  C3 as stated fails: of a text of 9001 code units the first message sent has 4006 code
  units, since the marker is put in front of a full chunk.
\<close>

theorem sendMessage_limit_counterexample:
  "\<not> list_all (\<lambda>p. length (post_text p) \<le> 4000)
       (fst (sendMessage (\<lambda>p. True) 7 (replicate 9001 97) None))"
  by (simp add: sendMessage_def outbound_text_def trim_def is_space_def chunk_loop_9001
      send_chunks_accepting marked_def part_marker_def js_def str_nat.simps)

section \<open>The formatter on plain text\<close>













































section \<open>The cursor across a restart\<close>

lemma quiet_simps [simp]:
  "quiet []" "quiet (ev # evs) = (\<not> is_poll_event ev \<and> quiet evs)"
  "quiet (xs @ ys) = (quiet xs \<and> quiet ys)"
  by (simp_all add: quiet_def)

lemma runClaude_quiet: "runClaude e s p m = (s', evs, r) \<Longrightarrow> quiet evs"
  by (auto simp: runClaude_def Let_def split: outcome.splits)

lemma runParallelAgents_quiet: "runParallelAgents e s ps m = (s', evs, r) \<Longrightarrow> quiet evs"
  by (auto simp: runParallelAgents_def Let_def quiet_def list_all_iff)

lemma mode_command_quiet: "quiet (snd (mode_command e s c t u n m usage banner))"
  by (auto simp: mode_command_def Let_def split: prod.splits dest: runClaude_quiet)

lemma agents_command_quiet: "quiet (snd (agents_command e s c t))"
  by (auto simp: agents_command_def Let_def split: prod.splits option.splits
      dest: runParallelAgents_quiet)

lemma default_command_quiet: "quiet (snd (default_command e s c t u))"
  by (auto simp: default_command_def Let_def split: prod.splits list.splits
      dest: runClaude_quiet)

lemma processMessage_quiet: "quiet (snd (processMessage e s msg))"
  by (simp add: processMessage_def Let_def mode_command_quiet agents_command_quiet
      default_command_quiet split: option.splits)

lemma dispatch_quiet: "quiet_handler (dispatch e)"
  by (simp add: quiet_handler_def dispatch_def split_def processMessage_quiet)

lemma quiet_saved_below: "quiet evs \<Longrightarrow> list_all (saved_below w b) evs"
  by (induction evs) (auto elim: is_poll_event.elims)

lemma quiet_fetch_above: "quiet evs \<Longrightarrow> list_all (fetch_above b) evs"
  by (induction evs) (auto elim: is_poll_event.elims)

lemma saved_below_mono: "b \<le> b' \<Longrightarrow> list_all (saved_below w b) evs \<Longrightarrow> list_all (saved_below w b') evs"
  by (induction evs) (auto elim: saved_below.elims)

lemma fetch_above_mono: "b' \<le> b \<Longrightarrow> list_all (fetch_above b) evs \<Longrightarrow> list_all (fetch_above b') evs"
  by (induction evs) (auto elim: fetch_above.elims)

lemma ascending_from_weaken: "b \<le> off \<Longrightarrow> ascending_from off ids \<Longrightarrow> ascending_from b ids"
  by (cases ids) auto

lemma run_ok_trans:
  "run_ok w p p1 evs1 \<Longrightarrow> run_ok w p1 p2 evs2 \<Longrightarrow> run_ok w p p2 (evs1 @ evs2)"
  unfolding run_ok_def
  by (auto intro: saved_below_mono fetch_above_mono)

lemma loadState_Saved [simp]: "loadState (Saved (Some i)) = i"
  by (simp add: loadState_def)

lemma bitlen_bound: "n < 2 ^ k \<Longrightarrow> bitlen n \<le> k"
proof (induction k arbitrary: n)
  case 0
  then show ?case by (simp add: bitlen.simps)
next
  case (Suc k)
  show ?case
  proof (cases "n = 0")
    case True
    then show ?thesis by (simp add: bitlen.simps)
  next
    case False
    have "n div 2 < 2 ^ k" using Suc.prems by auto
    from Suc.IH[OF this] show ?thesis using False by (subst bitlen.simps) simp
  qed
qed

lemma bitlen_power: "bitlen (2 ^ k) = Suc k"
proof (induction k)
  case 0
  show ?case by (simp add: bitlen.simps[of "Suc 0"] bitlen.simps[of 0])
next
  case (Suc k)
  then show ?case by (subst bitlen.simps) simp
qed

lemma to_double_below: "abs n < 2 ^ 53 \<Longrightarrow> to_double n = n"
proof -
  assume a: "abs n < 2 ^ 53"
  then have "nat (abs n) < 2 ^ 53" by (simp add: nat_less_iff)
  from bitlen_bound[OF this] have q: "bitlen (nat (abs n)) - 53 = 0" by simp
  have "to_double n = (if n < 0 then - int (nat (abs n)) else int (nat (abs n)))"
    unfolding to_double_def Let_def q by simp
  then show ?thesis by simp
qed

lemma to_double_limit: "to_double (2 ^ 53) = 2 ^ 53"
proof -
  have n: "nat (abs (2 ^ 53 :: int)) = 2 ^ 53" by (simp add: nat_power_eq)
  have e: "even ((2::nat) ^ 53 div 2)" by simp
  have d: "(2::nat) ^ 53 div 2 * 2 = 2 ^ 53" by simp
  show ?thesis
    unfolding to_double_def Let_def n bitlen_power using e d by simp
qed

lemma bitlen_54: "bitlen 9007199254740993 = 54"
  by (simp add: bitlen.simps)

lemma to_double_above: "to_double (9007199254740992 + 1) = 9007199254740992"
  by (simp add: to_double_def Let_def bitlen_54)

lemma offset_exact: "safe_id (lastUpdateId p) \<Longrightarrow> getUpdates_offset p = lastUpdateId p + 1"
proof -
  assume "safe_id (lastUpdateId p)"
  then have "abs (lastUpdateId p + 1) < 2 ^ 53 \<or> lastUpdateId p + 1 = 2 ^ 53"
    by (auto simp: safe_id_def)
  then show ?thesis
    unfolding getUpdates_offset_def using to_double_below to_double_limit by auto
qed

lemma forward_ok:
  assumes "quiet_handler h"
  shows "ascending_from (lastUpdateId p) (map update_id us) \<Longrightarrow>
         list_all (\<lambda>u. update_id u < 2 ^ 53) us \<Longrightarrow>
         safe_id (lastUpdateId p) \<Longrightarrow>
         loadState (stateFile p) \<le> lastUpdateId p \<Longrightarrow>
         forward h w p us = (p', evs, thrown) \<Longrightarrow>
         run_ok w p p' evs \<and> polls p' = polls p"
proof (induction us arbitrary: p p' evs thrown)
  case Nil
  then show ?case by (simp add: run_ok_def)
next
  case (Cons u us)
  let ?p1 = "saveState w (p\<lparr>lastUpdateId := update_id u\<rparr>) (update_id u)"
  have le: "lastUpdateId p \<le> update_id u" and asc: "ascending_from (update_id u) (map update_id us)"
    using Cons.prems(1) by auto
  have bd: "list_all (\<lambda>u. update_id u < 2 ^ 53) us" and sf: "safe_id (update_id u)"
    using Cons.prems(2,3) le by (auto simp: safe_id_def)
  have p1: "lastUpdateId ?p1 = update_id u" "polls ?p1 = polls p"
    "loadState (stateFile p) \<le> loadState (stateFile ?p1)"
    "loadState (stateFile ?p1) \<le> update_id u"
    "\<not> write_ok w (update_id u) \<or> update_id u \<le> loadState (stateFile ?p1)"
    using le Cons.prems(4) by (auto simp: saveState_def)
  have step: "run_ok w p ?p1 [SaveState (update_id u)]"
    using p1 le sf by (auto simp: run_ok_def)
  show ?case
  proof (cases "upd_message u")
    case None
    with Cons.prems(5) obtain evs' where f: "forward h w ?p1 us = (p', evs', thrown)"
      and evs: "evs = SaveState (update_id u) # evs'"
      by (auto simp: Let_def split: prod.splits)
    have "run_ok w ?p1 p' evs' \<and> polls p' = polls ?p1"
      by (rule Cons.IH[OF _ bd _ _ f]) (use p1 asc sf in auto)
    then show ?thesis using run_ok_trans[OF step, of p' evs'] evs p1 by simp
  next
    case (Some msg)
    obtain d hevs r where hr: "h (dispatcher ?p1) msg = (d, hevs, r)"
      by (cases "h (dispatcher ?p1) msg") auto
    have "quiet (fst (snd (h (dispatcher ?p1) msg)))" using assms by (simp add: quiet_handler_def)
    then have q: "quiet hevs" using hr by simp
    let ?p2 = "?p1\<lparr>dispatcher := d\<rparr>"
    have step2: "run_ok w p ?p2 (SaveState (update_id u) # hevs)"
      using step q quiet_saved_below[OF q] quiet_fetch_above[OF q] by (auto simp: run_ok_def)
    show ?thesis
    proof (cases r)
      case (Some err)
      with Cons.prems(5) hr \<open>upd_message u = Some msg\<close>
      have "p' = ?p2" "evs = SaveState (update_id u) # hevs"
        by (auto simp: Let_def)
      then show ?thesis using step2 p1 by simp
    next
      case None
      with Cons.prems(5) hr \<open>upd_message u = Some msg\<close>
      obtain evs' where f: "forward h w ?p2 us = (p', evs', thrown)"
        and evs: "evs = (SaveState (update_id u) # hevs) @ evs'"
        by (auto simp: Let_def split: prod.splits)
      have "run_ok w ?p2 p' evs' \<and> polls p' = polls ?p2"
        by (rule Cons.IH[OF _ bd _ _ f]) (use p1 asc sf in auto)
      then show ?thesis using run_ok_trans[OF step2, of p' evs'] evs p1 by simp
    qed
  qed
qed

lemma getUpdates_facts:
  assumes "honours w" and "getUpdates w p = (us, gevs, thrown)"
  shows "ascending_from (getUpdates_offset p) (map update_id us)
     \<and> list_all (\<lambda>u. update_id u < 2 ^ 53) us
     \<and> list_all is_fetch_error gevs
     \<and> (thrown \<noteq> None \<longrightarrow> us = [])"
proof (cases "fetch w (polls p) (getUpdates_offset p)")
  case (Updates vs)
  with assms(1) have "ascending_from (getUpdates_offset p) (map update_id vs)
      \<and> list_all (\<lambda>u. update_id u < 2 ^ 53) vs"
    unfolding honours_def by blast
  with Updates assms(2) show ?thesis by (auto simp: getUpdates_def)
next
  case Aborted
  with assms(2) show ?thesis by (auto simp: getUpdates_def)
next
  case (Failed msg)
  with assms(2) show ?thesis by (auto simp: getUpdates_def split: option.splits)
qed

lemma fetch_errors_ok:
  "list_all is_fetch_error gevs \<Longrightarrow>
   list_all (saved_below w b) gevs \<and> list_all (fetch_above c) gevs"
  by (induction gevs) (auto elim: is_fetch_error.elims)

lemma poll_catch_cases:
  "poll_catch w k p evs err = (p', evs', thrown) \<Longrightarrow>
   p' = p \<and> (evs' = evs \<or> evs' = evs @ [PollError err, Backoff])"
  by (auto simp: poll_catch_def split: option.splits)

lemma pollIteration_ok:
  assumes "quiet_handler h" "honours w" "loadState (stateFile p) \<le> lastUpdateId p"
    and "safe_id (lastUpdateId p)"
    and "pollIteration h w p = (p', evs, thrown)"
  shows "run_ok w p p' evs"
proof -
  let ?p0 = "p\<lparr>polls := polls p + 1\<rparr>"
  let ?g = "GetUpdates (getUpdates_offset p)"
  obtain us gevs gr where gu: "getUpdates w p = (us, gevs, gr)"
    using prod_cases3 by blast
  from getUpdates_facts[OF assms(2) gu]
  have asc0: "ascending_from (getUpdates_offset p) (map update_id us)"
    and bd: "list_all (\<lambda>u. update_id u < 2 ^ 53) us"
    and fe: "list_all is_fetch_error gevs" by simp_all
  have off: "getUpdates_offset p = lastUpdateId p + 1" by (rule offset_exact[OF assms(4)])
  have "lastUpdateId ?p0 \<le> getUpdates_offset p" by (simp add: off)
  from ascending_from_weaken[OF this asc0]
  have asc: "ascending_from (lastUpdateId ?p0) (map update_id us)" .
  have g: "run_ok w p ?p0 (?g # gevs)"
    using assms(3,4) fetch_errors_ok[OF fe] by (simp add: run_ok_def off)
  have tail: "run_ok w q q [PollError err, Backoff]" if "run_ok w q0 q es" for q q0 es err
    using that by (simp add: run_ok_def)
  show ?thesis
  proof (cases gr)
    case (Some err)
    with assms(5) gu have "poll_catch w (polls p) ?p0 (?g # gevs) err = (p', evs, thrown)"
      by (simp add: pollIteration_def Let_def)
    from poll_catch_cases[OF this]
    have "p' = ?p0" "evs = ?g # gevs \<or> evs = (?g # gevs) @ [PollError err, Backoff]" by simp_all
    then show ?thesis using g run_ok_trans[OF g tail[OF g, of err]] by auto
  next
    case None
    obtain p1 evs1 fr where f: "forward h w ?p0 us = (p1, evs1, fr)"
      using prod_cases3 by blast
    have inv0: "loadState (stateFile ?p0) \<le> lastUpdateId ?p0" "safe_id (lastUpdateId ?p0)"
      using assms(3,4) by simp_all
    from forward_ok[OF assms(1) asc bd inv0(2) inv0(1) f]
    have ok: "run_ok w ?p0 p1 evs1" by simp
    have all: "run_ok w p p1 ((?g # gevs) @ evs1)" by (rule run_ok_trans[OF g ok])
    show ?thesis
    proof (cases fr)
      case None
      with assms(5) gu f \<open>gr = None\<close> have "p' = p1" "evs = (?g # gevs) @ evs1"
        by (simp_all add: pollIteration_def Let_def)
      then show ?thesis using all by simp
    next
      case (Some err)
      with assms(5) gu f \<open>gr = None\<close>
      have "poll_catch w (polls p) p1 (?g # gevs @ evs1) err = (p', evs, thrown)"
        by (simp add: pollIteration_def Let_def)
      from poll_catch_cases[OF this]
      have "p' = p1" "evs = (?g # gevs) @ evs1 \<or> evs = ((?g # gevs) @ evs1) @ [PollError err, Backoff]"
        by simp_all
      then show ?thesis using all run_ok_trans[OF all tail[OF all, of err]] by auto
    qed
  qed
qed

lemma pollLoop_ok:
  assumes "quiet_handler h" "honours w"
  shows "loadState (stateFile p) \<le> lastUpdateId p \<Longrightarrow> safe_id (lastUpdateId p) \<Longrightarrow>
         pollLoop n h w p = (p', evs, thrown) \<Longrightarrow> run_ok w p p' evs"
proof (induction n arbitrary: p p' evs thrown)
  case 0
  then show ?case by (simp add: run_ok_def)
next
  case (Suc n)
  obtain p1 evs1 r1 where it: "pollIteration h w p = (p1, evs1, r1)"
    using prod_cases3 by blast
  have a: "run_ok w p p1 evs1"
    by (rule pollIteration_ok[OF assms Suc.prems(1,2) it])
  show ?case
  proof (cases r1)
    case (Some err)
    with Suc.prems(3) it have "p' = p1" "evs = evs1" by simp_all
    then show ?thesis using a by simp
  next
    case None
    obtain p2 evs2 r2 where lp: "pollLoop n h w p1 = (p2, evs2, r2)"
      using prod_cases3 by blast
    have inv1: "loadState (stateFile p1) \<le> lastUpdateId p1" "safe_id (lastUpdateId p1)"
      using a by (simp_all add: run_ok_def)
    have b: "run_ok w p1 p2 evs2" by (rule Suc.IH[OF inv1 lp])
    have "p' = p2" "evs = evs1 @ evs2" using Suc.prems(3) it lp None by auto
    then show ?thesis using run_ok_trans[OF a b] by simp
  qed
qed

lemma pollLoop_first_event:
  "hd (fst (snd (pollLoop (Suc n) h w p))) = GetUpdates (getUpdates_offset p)"
  by (simp add: pollIteration_def poll_catch_def Let_def split: prod.splits option.splits)

lemma sample_world_honours: "honours sample_world"
  by (auto simp: honours_def sample_world_def list_all_iff split: if_splits)

text \<open>
  C5 as stated fails twice. The loop stores the identifier of every update in the order
  in which the transport hands them over: after an answer with the identifiers 9 and 3
  the persisted cursor has gone from 9 down to 3 and the next request asks again for what
  lies above 3. And the offset is a sum of doubles: for the persisted identifier
  \<open>2 ^ 53\<close> the request has the offset \<open>2 ^ 53\<close>, not that plus one.
\<close>

theorem cursor_regress_counterexample:
  "pollLoop 2 (dispatch sample_env) unordered_world (initial_poller Missing []) =
     (\<lparr>lastUpdateId = 3, stateFile = Saved (Some 3), polls = 2, dispatcher = initial_bridge []\<rparr>,
      [GetUpdates 1, SaveState 9, SaveState 3, GetUpdates 4], None)
   \<and> getUpdates_offset (initial_poller (Saved (Some 9007199254740992)) []) = 9007199254740992"
proof -
  have s: "safe_id 0" "safe_id 3" by (simp_all add: safe_id_def)
  have a: "pollLoop 2 (dispatch sample_env) unordered_world (initial_poller Missing []) =
     (\<lparr>lastUpdateId = 3, stateFile = Saved (Some 3), polls = 2, dispatcher = initial_bridge []\<rparr>,
      [GetUpdates 1, SaveState 9, SaveState 3, GetUpdates 4], None)"
    by (simp add: numeral_2_eq_2 pollIteration_def getUpdates_def offset_exact s
        unordered_world_def initial_poller_def saveState_def loadState_def Let_def)
  have b: "getUpdates_offset (initial_poller (Saved (Some 9007199254740992)) []) = 9007199254740992"
    using to_double_above by (simp add: getUpdates_offset_def initial_poller_def loadState_def)
  from a b show ?thesis by simp
qed

text \<open>
  C5 (amended). After a restart the first request has the offset of the persisted
  identifier plus one, for every persisted identifier between \<open>- 2 ^ 53\<close> and \<open>2 ^ 53\<close>.
  With a transport that honours the offset, over any number of turns of the loop the
  persisted cursor never decreases and never runs ahead of the cursor in memory; every
  identifier written to the state file before the crash is below the offset of every
  request after the restart, so none of them is requested again.
\<close>

theorem cursor_resume:
  assumes "safe_id c"
    and "honours w" and "safe_id (loadState f)"
    and "pollLoop n (dispatch e) w (initial_poller f dir) = (p, evs, thrown)"
    and "honours w'"
    and "pollLoop n' (dispatch e') w' (initial_poller (stateFile p) dir') = (p', evs', thrown')"
  shows "getUpdates_offset (initial_poller (Saved (Some c)) dir') = c + 1
    \<and> hd (fst (snd (pollLoop (Suc k) (dispatch e') w' (initial_poller (Saved (Some c)) dir'))))
        = GetUpdates (c + 1)
    \<and> loadState f \<le> loadState (stateFile p)
    \<and> loadState (stateFile p) \<le> lastUpdateId p
    \<and> list_all (saved_below w (loadState (stateFile p))) evs
    \<and> list_all (fetch_above (loadState (stateFile p))) evs'
    \<and> loadState (stateFile p) \<le> loadState (stateFile p')"
proof -
  have i0: "loadState (stateFile (initial_poller g d)) \<le> lastUpdateId (initial_poller g d)" for g d
    by (simp add: initial_poller_def)
  have s0: "safe_id (lastUpdateId (initial_poller f dir))"
    using assms(3) by (simp add: initial_poller_def)
  from pollLoop_ok[OF dispatch_quiet assms(2) i0 s0 assms(4)]
  have r1: "run_ok w (initial_poller f dir) p evs" .
  have "loadState f \<le> loadState (stateFile p)" "loadState (stateFile p) \<le> lastUpdateId p"
    "safe_id (lastUpdateId p)"
    using r1 by (simp_all add: run_ok_def initial_poller_def)
  with assms(3) have s1: "safe_id (lastUpdateId (initial_poller (stateFile p) dir'))"
    by (simp add: initial_poller_def safe_id_def)
  from pollLoop_ok[OF dispatch_quiet assms(5) i0 s1 assms(6)]
  have r2: "run_ok w' (initial_poller (stateFile p) dir') p' evs'" .
  have sc: "safe_id (lastUpdateId (initial_poller (Saved (Some c)) dir'))"
    using assms(1) by (simp add: initial_poller_def)
  have a: "getUpdates_offset (initial_poller (Saved (Some c)) dir') = c + 1"
    unfolding offset_exact[OF sc] by (simp add: initial_poller_def)
  have b: "hd (fst (snd (pollLoop (Suc k) (dispatch e') w' (initial_poller (Saved (Some c)) dir'))))
      = GetUpdates (c + 1)"
    unfolding pollLoop_first_event a by simp
  show ?thesis using r1 r2 a b by (simp add: run_ok_def initial_poller_def)
qed

theorem cursor_resume_witness:
  "loadState (stateFile (fst (pollLoop 1 (dispatch sample_env) sample_world
       (initial_poller (Saved (Some 4)) [])))) = 7
   \<and> fst (snd (pollLoop 1 (dispatch sample_env) sample_world (initial_poller (Saved (Some 4)) [])))
       = [GetUpdates 5, SaveState 5, SaveState 6, SaveState 7]
   \<and> getUpdates_offset (initial_poller (Saved (Some 7)) []) = 8
   \<and> fst (snd (pollLoop 1 (dispatch sample_env) sample_world (initial_poller (Saved (Some 7)) [])))
       = [GetUpdates 8]"
proof -
  have s: "safe_id 4" "safe_id 7" by (simp_all add: safe_id_def)
  have run1: "pollLoop 1 (dispatch sample_env) sample_world (initial_poller (Saved (Some 4)) [])
      = (\<lparr>lastUpdateId = 7, stateFile = Saved (Some 7), polls = 1, dispatcher = initial_bridge []\<rparr>,
         [GetUpdates 5, SaveState 5, SaveState 6, SaveState 7], None)"
    by (simp add: pollIteration_def getUpdates_def offset_exact s sample_world_def
        initial_poller_def saveState_def Let_def)
  have run2: "pollLoop 1 (dispatch sample_env) sample_world
      (initial_poller (stateFile \<lparr>lastUpdateId = 7, stateFile = Saved (Some 7), polls = 1,
                                  dispatcher = initial_bridge []\<rparr>) [])
      = (\<lparr>lastUpdateId = 7, stateFile = Saved (Some 7), polls = 1, dispatcher = initial_bridge []\<rparr>,
         [GetUpdates 8], None)"
    by (simp add: pollIteration_def getUpdates_def offset_exact s sample_world_def
        initial_poller_def saveState_def Let_def)
  have s4: "safe_id (loadState (Saved (Some 4)))" using s by simp
  from cursor_resume [OF s(2) sample_world_honours s4 run1 sample_world_honours run2, of 0]
  show ?thesis using run1 run2 by simp
qed

section \<open>Restart-loop protection\<close>













section \<open>Fan-out isolation\<close>

lemma foldl_append_entries:
  "foldl (\<lambda>output r. output @ f r) h rs = h @ concat (map f rs)"
  by (induction rs arbitrary: h) simp_all

lemma map_enumerate_nth:
  "map f (enumerate n xs) = map (\<lambda>i. f (n + i, xs ! i)) [0..<length xs]"
  by (rule nth_equalityI) (simp_all add: nth_enumerate_eq)

lemma agent_entry_run_agent:
  "agent_entry (run_agent e m i p) = outcome_entry (i + 1) (query e (agent_prompt e m i p))"
  by (cases "query e (agent_prompt e m i p)") (simp_all add: agent_entry_def run_agent_def)

text \<open>
  C7. The reply of \<open>runParallelAgents\<close> for \<open>N\<close> prompts is the header followed by exactly
  \<open>N\<close> entries in agent-index order; entry \<open>i\<close> is made from the outcome of agent \<open>i\<close>'s own
  executor call alone: its result when the call returned, its error message when the call
  threw. The function always returns the reply, with the execution slot idle again.
\<close>

theorem fanout_isolation:
  "snd (snd (runParallelAgents e s prompts m)) =
     agents_header (length prompts)
     @ concat (map (\<lambda>i. outcome_entry (i + 1) (query e (agent_prompt e m i (prompts ! i))))
                 [0..<length prompts])
   \<and> length (map (\<lambda>i. outcome_entry (i + 1) (query e (agent_prompt e m i (prompts ! i))))
                 [0..<length prompts]) = length prompts
   \<and> isProcessing (fst (runParallelAgents e s prompts m)) = False
   \<and> activeAgents (fst (runParallelAgents e s prompts m)) = 0"
  by (simp add: runParallelAgents_def Let_def foldl_append_entries map_enumerate_nth
      agent_entry_run_agent split_def comp_def)

theorem fanout_isolation_witness:
  "snd (snd (runParallelAgents sample_env (initial_bridge []) (replicate 5 (js ''t'')) Default)) =
     agents_header 5
     @ outcome_entry 1 (Result (js ''ok'')) @ outcome_entry (Suc 1) (Result (js ''ok''))
     @ outcome_entry 3 (Throws (js ''boom''))
     @ outcome_entry 4 (Result (js ''ok'')) @ outcome_entry 5 (Result (js ''ok''))"
proof -
  have n: "[0..<5] = [0, 1, 2, 3, 4::nat]" by (simp add: upt_rec)
  from fanout_isolation [of sample_env "initial_bridge []" "replicate 5 (js ''t'')" Default]
  show ?thesis
    by (simp add: n sample_env_def agent_prompt_def system_prompt_def js_def nl_def
        str_nat.simps del: outcome_entry.simps)
qed

section \<open>The loop and a running task\<close>

lemma mode_command_idle:
  "\<not> isProcessing s \<Longrightarrow> messageQueue s = [] \<Longrightarrow>
   \<not> isProcessing (fst (mode_command e s c t u n m usage banner))
   \<and> messageQueue (fst (mode_command e s c t u n m usage banner)) = []"
  by (auto simp: mode_command_def runClaude_def Let_def split: outcome.splits)

lemma agents_command_idle:
  "\<not> isProcessing s \<Longrightarrow> messageQueue s = [] \<Longrightarrow>
   \<not> isProcessing (fst (agents_command e s c t))
   \<and> messageQueue (fst (agents_command e s c t)) = []"
  by (auto simp: agents_command_def runParallelAgents_def Let_def split: option.splits)

lemma default_command_idle:
  "\<not> isProcessing s \<Longrightarrow> messageQueue s = [] \<Longrightarrow>
   \<not> isProcessing (fst (default_command e s c t u))
   \<and> messageQueue (fst (default_command e s c t u)) = []"
  by (auto simp: default_command_def runClaude_def Let_def split: outcome.splits)

lemma processMessage_idle:
  assumes "\<not> isProcessing s" "messageQueue s = []"
  shows "\<not> isProcessing (fst (processMessage e s msg))
     \<and> messageQueue (fst (processMessage e s msg)) = []"
  using assms mode_command_idle[OF assms] agents_command_idle[OF assms]
    default_command_idle[OF assms]
  by (simp add: processMessage_def Let_def split: option.splits)

lemma forward_idle:
  "idle p \<Longrightarrow> idle (fst (forward (dispatch e) w p us))"
proof (induction us arbitrary: p)
  case Nil
  then show ?case by simp
next
  case (Cons u us)
  let ?p1 = "saveState w (p\<lparr>lastUpdateId := update_id u\<rparr>) (update_id u)"
  have i1: "idle ?p1" using Cons.prems by (simp add: idle_def saveState_def)
  show ?case
  proof (cases "upd_message u")
    case None
    then show ?thesis using Cons.IH[OF i1] by (simp add: Let_def split_def)
  next
    case (Some msg)
    let ?d = "fst (processMessage e (dispatcher ?p1) msg)"
    have "idle (?p1\<lparr>dispatcher := ?d\<rparr>)"
      using processMessage_idle[of "dispatcher ?p1" e msg] i1 by (simp add: idle_def)
    from Cons.IH[OF this] show ?thesis using Some
      by (simp add: Let_def split_def dispatch_def)
  qed
qed

lemma pollIteration_idle:
  assumes "idle p"
  shows "idle (fst (pollIteration (dispatch e) w p))"
proof -
  let ?p0 = "p\<lparr>polls := polls p + 1\<rparr>"
  have i0: "idle ?p0" using assms by (simp add: idle_def)
  obtain us gevs gr where gu: "getUpdates w p = (us, gevs, gr)"
    using prod_cases3 by blast
  obtain p1 evs1 fr where f: "forward (dispatch e) w ?p0 us = (p1, evs1, fr)"
    using prod_cases3 by blast
  have i1: "idle p1" using forward_idle[OF i0, of e w us] f by simp
  show ?thesis using gu f i0 i1
    by (cases gr; cases fr) (auto simp: pollIteration_def poll_catch_def Let_def split: option.splits)
qed

lemma pollLoop_idle:
  "idle p \<Longrightarrow> idle (fst (pollLoop n (dispatch e) w p))"
proof (induction n arbitrary: p)
  case 0
  then show ?case by simp
next
  case (Suc n)
  obtain p1 evs1 r1 where it: "pollIteration (dispatch e) w p = (p1, evs1, r1)"
    using prod_cases3 by blast
  have i1: "idle p1" using pollIteration_idle[OF Suc.prems, of e w] it by simp
  show ?case
  proof (cases r1)
    case None
    with it Suc.IH[OF i1] show ?thesis by (simp add: split_def)
  next
    case (Some err)
    with it i1 show ?thesis by simp
  qed
qed

lemma poll_loop_never_queues:
  "isProcessing (dispatcher (fst (pollLoop n (dispatch e) w (initial_poller f dir)))) = False
   \<and> messageQueue (dispatcher (fst (pollLoop n (dispatch e) w (initial_poller f dir)))) = []"
  using pollLoop_idle[of "initial_poller f dir" n e w]
  by (simp add: idle_def initial_poller_def initial_bridge_def)

lemma hello_when_idle:
  "processMessage sample_env (initial_bridge []) (sample_message ''hello'') =
     ((initial_bridge [])\<lparr>totalInputTokens := 7, totalOutputTokens := 1, messagesProcessed := 1\<rparr>,
      [Send 42 (Text (js ''Processing: hello'')),
       ExecStart (js ''S'' @ [nl, nl] @ js ''---'' @ [nl, nl] @ js ''User request: hello''),
       ExecEnd,
       SaveMessage (js ''bob'') 42 (js ''hello'') (substring_to (formatForTelegram (js ''ok'')) 5000),
       Send 42 (Text (formatForTelegram (js ''ok''))),
       Send 42 Completed])"
proof -
  have d: "default_command sample_env (initial_bridge []) 42 (js ''hello'') (js ''bob'') =
     ((initial_bridge [])\<lparr>totalInputTokens := 7, totalOutputTokens := 1, messagesProcessed := 1\<rparr>,
      [Send 42 (Text (js ''Processing: hello'')),
       ExecStart (js ''S'' @ [nl, nl] @ js ''---'' @ [nl, nl] @ js ''User request: hello''),
       ExecEnd,
       SaveMessage (js ''bob'') 42 (js ''hello'') (substring_to (formatForTelegram (js ''ok'')) 5000),
       Send 42 (Text (formatForTelegram (js ''ok''))),
       Send 42 Completed])"
    unfolding default_command_def Let_def runClaude_hello
    by (simp add: initial_bridge_def js_def substring_to_def)
  have "processMessage sample_env (initial_bridge []) (sample_message ''hello'') =
     default_command sample_env (initial_bridge []) 42 (js ''hello'') (js ''bob'')"
    unfolding processMessage_def Let_def sample_message_def
    by (simp add: isAuthorized_def sample_env_def sender_name_def eval_defs)
  with d show ?thesis by simp
qed

lemma status_report:
  "processMessage sample_env s (sample_message ''/status'') =
     (s, [Send 42 (StatusReport (isProcessing s) (activeAgents s) (WORKING_DIR s)
                     (length (messageQueue s)) (messagesProcessed s))])"
  unfolding processMessage_def Let_def sample_message_def
  by (simp add: isAuthorized_def sample_env_def sender_name_def eval_defs)

text \<open>
  C8 fails on the code. The loop awaits \<open>processMessage\<close>, which awaits the executor: in
  a batch of two messages the second is handled only after the task of the first has
  ended (its status report shows an idle slot), and the next \<open>getUpdates\<close> comes after
  both. So no message of the loop ever finds the slot busy (\<open>poll_loop_never_queues\<close>).
\<close>

theorem poll_waits_for_task:
  "fst (snd (pollLoop 2 (dispatch sample_env) batch_world (initial_poller Missing []))) =
     [GetUpdates 1,
      SaveState 1,
      Send 42 (Text (js ''Processing: hello'')),
      ExecStart (js ''S'' @ [nl, nl] @ js ''---'' @ [nl, nl] @ js ''User request: hello''),
      ExecEnd,
      SaveMessage (js ''bob'') 42 (js ''hello'') (substring_to (formatForTelegram (js ''ok'')) 5000),
      Send 42 (Text (formatForTelegram (js ''ok''))),
      Send 42 Completed,
      SaveState 2,
      Send 42 (StatusReport False 0 [] 0 1),
      GetUpdates 3]"
proof -
  have s: "safe_id 0" "safe_id 2" by (simp_all add: safe_id_def)
  show ?thesis
    by (simp add: numeral_2_eq_2 pollIteration_def getUpdates_def offset_exact s
        batch_world_def initial_poller_def saveState_def loadState_def dispatch_def
        hello_when_idle status_report Let_def)
      (simp add: initial_bridge_def)
qed


section \<open>Requests that arrive during a task\<close>


section \<open>Startup and the fatal configuration error\<close>

lemma missing_token_exits:
  "bridge_main h w None f dir n = Exited 1 \<and> bridge_main h w (Some []) f dir n = Exited 1"
  by (simp add: bridge_main_def)

lemma forward_polls: "forward h w p us = (p', evs, thrown) \<Longrightarrow> polls p' = polls p"
proof (induction us arbitrary: p p' evs thrown)
  case Nil
  then show ?case by simp
next
  case (Cons u us)
  let ?p1 = "saveState w (p\<lparr>lastUpdateId := update_id u\<rparr>) (update_id u)"
  have p1: "polls ?p1 = polls p" by (simp add: saveState_def)
  show ?case
  proof (cases "upd_message u")
    case None
    with Cons.prems obtain evs' where "forward h w ?p1 us = (p', evs', thrown)"
      by (auto simp: Let_def split: prod.splits)
    from Cons.IH[OF this] p1 show ?thesis by simp
  next
    case (Some msg)
    obtain d hevs r where hr: "h (dispatcher ?p1) msg = (d, hevs, r)"
      using prod_cases3 by blast
    show ?thesis
    proof (cases r)
      case None
      with Cons.prems hr Some obtain evs' where
        "forward h w (?p1\<lparr>dispatcher := d\<rparr>) us = (p', evs', thrown)"
        by (auto simp: Let_def split: prod.splits)
      from Cons.IH[OF this] p1 show ?thesis by simp
    next
      case (Some err)
      with Cons.prems hr \<open>upd_message u = Some msg\<close> have "p' = ?p1\<lparr>dispatcher := d\<rparr>"
        by (auto simp: Let_def)
      then show ?thesis using p1 by simp
    qed
  qed
qed

lemma pollIteration_goes_on:
  assumes "\<And>k site. append w k site = None"
  shows "snd (snd (pollIteration h w p)) = None \<and> polls (fst (pollIteration h w p)) = polls p + 1"
proof -
  let ?p0 = "p\<lparr>polls := polls p + 1\<rparr>"
  obtain us gevs where gu: "getUpdates w p = (us, gevs, None)"
    by (cases "fetch w (polls p) (getUpdates_offset p)") (auto simp: getUpdates_def assms)
  obtain p1 evs1 fr where f: "forward h w ?p0 us = (p1, evs1, fr)"
    using prod_cases3 by blast
  from forward_polls[OF f] have "polls p1 = polls p + 1" by simp
  then show ?thesis using gu f
    by (cases fr) (simp_all add: pollIteration_def poll_catch_def Let_def assms)
qed

lemma pollLoop_goes_on:
  assumes "\<And>k site. append w k site = None"
  shows "snd (snd (pollLoop n h w p)) = None \<and> polls (fst (pollLoop n h w p)) = polls p + n"
proof (induction n arbitrary: p)
  case 0
  then show ?case by simp
next
  case (Suc n)
  obtain p1 evs1 r1 where it: "pollIteration h w p = (p1, evs1, r1)"
    using prod_cases3 by blast
  from pollIteration_goes_on[OF assms, of h p] it
  have "r1 = None" "polls p1 = polls p + 1" by simp_all
  then show ?case using Suc.IH[of p1] it by (simp add: split_def)
qed

lemma startup_log_quiet: "(\<And>k site. append w k site = None) \<Longrightarrow> startup_log w = None"
  by (simp add: startup_log_def List.map_filter_def)

lemma loop_survives_handler:
  assumes "\<And>k site. append w k site = None" and "token \<noteq> []"
  shows "\<exists>p evs. bridge_main h w (Some token) f dir n = Polling p evs \<and> polls p = n"
proof -
  obtain p evs r where lp: "pollLoop n h w (initial_poller f dir) = (p, evs, r)"
    using prod_cases3 by blast
  from pollLoop_goes_on[OF assms(1), of n h "initial_poller f dir"] lp
  have "r = None" "polls p = n" by (simp_all add: initial_poller_def)
  then show ?thesis using lp assms(2) startup_log_quiet[OF assms(1)]
    by (simp add: bridge_main_def)
qed

lemma loop_survives_sample:
  "bridge_main failing_handler message_world (Some (js ''token'')) Missing [] 2 =
     Polling \<lparr>lastUpdateId = 1, stateFile = Saved (Some 1), polls = 2,
              dispatcher = initial_bridge []\<rparr>
       [GetUpdates 1, SaveState 1, PollError (js ''boom''), Backoff, GetUpdates 2]"
proof -
  have s: "safe_id 0" "safe_id 1" by (simp_all add: safe_id_def)
  have "startup_log message_world = None"
    by (rule startup_log_quiet) (simp add: message_world_def)
  then show ?thesis
    by (simp add: bridge_main_def js_def numeral_2_eq_2 pollIteration_def poll_catch_def
        getUpdates_def offset_exact s message_world_def failing_handler_def initial_poller_def
        saveState_def loadState_def Let_def)
qed

lemma startup_log_closed: "startup_log closed_log_world = Some (js ''EACCES'')"
proof -
  have "[0..<8] = 0 # [1..<8]" by (simp add: upt_conv_Cons)
  then show ?thesis
    by (simp add: startup_log_def closed_log_world_def List.map_filter_def)
qed

lemma startup_log_full_disk: "startup_log full_disk_world = None"
  by (simp add: startup_log_def full_disk_world_def List.map_filter_def)

text \<open>
  C9 fails on the code. Without a bot token the process exits with code 1 before the
  loop (\<open>missing_token_exits\<close>), and while the log file can be appended to the loop goes
  on whatever the handler of a message does (\<open>loop_survives_handler\<close>). But \<open>log\<close> does
  not catch the error of \<open>fs.appendFileSync\<close>, as the same function of \<open>watchdog.js\<close>
  does. With a token and a log file that cannot be appended to, the first line of
  \<open>pollLoop\<close> throws and no request is ever made. When the log file fails once the loop
  has begun, the handling of the first message with text throws in \<open>log\<close>, the \<open>catch\<close> of
  the loop throws in \<open>log\<close> again, and the loop is left for good, for any number of turns.
\<close>

theorem log_failure_ends_polling:
  "bridge_main h closed_log_world (Some (js ''token'')) f dir n =
     Ended (initial_poller f dir) [] (js ''EACCES'')
   \<and> bridge_main (dispatch_unlogged (js ''ENOSPC'')) full_disk_world (Some (js ''token''))
       Missing [] (Suc n) =
     Ended \<lparr>lastUpdateId = 1, stateFile = Saved (Some 1), polls = 1,
            dispatcher = initial_bridge []\<rparr>
       [GetUpdates 1, SaveState 1] (js ''ENOSPC'')"
proof -
  have s: "safe_id 0" by (simp add: safe_id_def)
  have t: "js ''token'' \<noteq> []" by (simp add: js_def)
  have a: "bridge_main h closed_log_world (Some (js ''token'')) f dir n =
     Ended (initial_poller f dir) [] (js ''EACCES'')"
    using t by (simp add: bridge_main_def startup_log_closed)
  have it: "pollIteration (dispatch_unlogged (js ''ENOSPC'')) full_disk_world (initial_poller Missing []) =
     (\<lparr>lastUpdateId = 1, stateFile = Saved (Some 1), polls = 1, dispatcher = initial_bridge []\<rparr>,
      [GetUpdates 1, SaveState 1], Some (js ''ENOSPC''))"
    by (simp add: pollIteration_def poll_catch_def getUpdates_def offset_exact s
        full_disk_world_def message_world_def dispatch_unlogged_def initial_poller_def
        saveState_def loadState_def Let_def eval_defs)
  have b: "bridge_main (dispatch_unlogged (js ''ENOSPC'')) full_disk_world (Some (js ''token''))
       Missing [] (Suc n) =
     Ended \<lparr>lastUpdateId = 1, stateFile = Saved (Some 1), polls = 1,
            dispatcher = initial_bridge []\<rparr>
       [GetUpdates 1, SaveState 1] (js ''ENOSPC'')"
    using t by (simp add: bridge_main_def startup_log_full_disk it)
  from a b show ?thesis by simp
qed

section \<open>Default deny\<close>

text \<open>
  C10. With an empty allow list (also when the environment variable is unset or empty)
  \<open>isAuthorized\<close> is false for every chat identifier, and \<open>processMessage\<close> answers every
  message that has a text with the unauthorized notice and does nothing else; a message
  without text is dropped before the check, as always.
\<close>

theorem empty_allowlist_denies:
  "isAuthorized [] chatId = False
   \<and> isAuthorized (parse_allowed None) chatId = False
   \<and> isAuthorized (parse_allowed (Some [])) chatId = False
   \<and> processMessage (e\<lparr>ALLOWED_CHAT_IDS := []\<rparr>) s msg =
       (if (case msg_text msg of None \<Rightarrow> [] | Some t \<Rightarrow> trim t) = [] then (s, [])
        else (s, [Send (chat_id msg)
                    (Text (js ''Unauthorized. Your chat ID: '' @ str_int (chat_id msg)))]))"
  by (simp add: isAuthorized_def parse_allowed_def processMessage_def Let_def)

theorem empty_allowlist_denies_witness:
  "processMessage (sample_env\<lparr>ALLOWED_CHAT_IDS := []\<rparr>) (initial_bridge []) (sample_message ''hello'')
     = (initial_bridge [], [Send 42 (Text (js ''Unauthorized. Your chat ID: 42''))])"
  using empty_allowlist_denies [of 42 sample_env "initial_bridge []" "sample_message ''hello''"]
  by (simp add: sample_message_def eval_defs)

end
